theory Spec2Isabelle
  imports Main "HOL-Library.Word" "HOL-Library.Multiset"
begin

section \<open>SPR (Swagger Proxy Runner): values, schema synthesis and the request plan\<close>

text \<open>
  This theory embeds \<^verbatim>\<open>cmd/spr/main.go\<close>: the recursive value synthesis
  \<^verbatim>\<open>getDummyValue\<close>, the eligibility test \<^verbatim>\<open>hasIntegerParams\<close>, and the two
  loops of \<^verbatim>\<open>main\<close> that count and then build the requests. The worker goroutines
  only read the descriptors they receive; they are outside the embedding.
\<close>

subsection \<open>Decoded JSON values\<close>

text \<open>
  \<^verbatim>\<open>encoding/json\<close> decodes into \<^verbatim>\<open>interface{}\<close>: \<^verbatim>\<open>nil\<close>, \<^verbatim>\<open>bool\<close>,
  \<^verbatim>\<open>float64\<close>, \<^verbatim>\<open>string\<close>, \<^verbatim>\<open>[]interface{}\<close> and \<^verbatim>\<open>map[string]interface{}\<close>;
  \<^verbatim>\<open>getDummyValue\<close> adds \<^verbatim>\<open>int\<close>. A \<^verbatim>\<open>float64\<close> is kept as its 64 bits (no claim
  computes with it). A Go map is an association list with distinct keys, in the order
  a \<^verbatim>\<open>range\<close> over it visits them; a read of a missing key yields the zero value
  \<^verbatim>\<open>nil\<close>.
\<close>

datatype gval =
    GNil
  | GBool bool
  | GInt int
  | GFloat "64 word"
  | GString string
  | GSlice "gval list"
  | GMap "(string \<times> gval) list"

type_synonym gmap = "(string \<times> gval) list"

text \<open>
  How a run can end early: a Go runtime panic (a failed single-value type assertion;
  nothing in the program recovers from it), or a message on standard output followed
  by \<^verbatim>\<open>os.Exit(1)\<close>.
\<close>

datatype failure = RuntimePanic | Exit1 string


text \<open>The type assertions \<^verbatim>\<open>v.(string)\<close> and \<^verbatim>\<open>v.(map[string]interface{})\<close>.\<close>

definition as_string :: "gval \<Rightarrow> string option" where
  "as_string v = (case v of GString s \<Rightarrow> Some s | _ \<Rightarrow> None)"

definition as_map :: "gval \<Rightarrow> gmap option" where
  "as_map v = (case v of GMap m \<Rightarrow> Some m | _ \<Rightarrow> None)"

text \<open>\<^verbatim>\<open>m[k]\<close> on a map of interfaces.\<close>

definition lookup :: "gmap \<Rightarrow> string \<Rightarrow> gval" where
  "lookup m k = (case map_of m k of None \<Rightarrow> GNil | Some v \<Rightarrow> v)"

text \<open>\<^verbatim>\<open>s, _ := m[k].(string)\<close>: the empty string when the assertion fails.\<close>

definition string_field :: "gmap \<Rightarrow> string \<Rightarrow> string" where
  "string_field m k = (case as_string (lookup m k) of Some s \<Rightarrow> s | None \<Rightarrow> [])"

subsection \<open>Constants\<close>

definition staticUUID :: string where
  "staticUUID = ''11111111-1111-1111-1111-111111111111''"

definition intFuzzValues :: "int list" where
  "intFuzzValues =
    [1, 10, 100, 1000, 10000, 100000, 1000000, 10000000,
     2, 20, 200, 2000, 20000, 200000, 2000000, 20000000,
     5, 50, 500, 5000, 50000, 500000, 5000000, 50000000,
     9, 90, 900, 9000, 90000, 900000, 9000000, 90000000]"

text \<open>The \<^verbatim>\<open>float64\<close> constant \<^verbatim>\<open>1.0\<close>, as IEEE 754 bits.\<close>

definition float_one :: "64 word" where
  "float_one = 0x3FF0000000000000"

subsection \<open>getDummyValue\<close>

text \<open>
  \<^verbatim>\<open>getDummyValue\<close> (lines 53 to 122). The first test,
  \<^verbatim>\<open>exists && !intFuzz\<close>, is the \<^verbatim>\<open>case\<close> on the override table read only when
  \<^verbatim>\<open>intFuzz\<close> is off. The three loops over \<^verbatim>\<open>properties\<close> are
  \<open>synth_properties\<close>: each entry is asserted to be a map (a panic otherwise) and
  synthesised under its own key as parameter name.
\<close>

lemma size_map_of: "map_of m k = Some v \<Longrightarrow> size v < size (GMap m)"
  by (induction m) (auto split: if_splits)

lemma size_lookup_map:
  "as_map (lookup m k) = Some m' \<Longrightarrow>
     size_list (size_prod (\<lambda>x. 0) size) m' < size_list (size_prod (\<lambda>x. 0) size) m"
  using size_map_of [of m k "GMap m'"]
  by (auto simp: as_map_def lookup_def split: option.splits gval.splits)

function getDummyValue ::
    "gmap \<Rightarrow> gval \<Rightarrow> bool \<Rightarrow> int \<Rightarrow> string \<Rightarrow> (string \<rightharpoonup> string) \<Rightarrow> failure + gval"
  and synth_properties ::
    "gmap \<Rightarrow> bool \<Rightarrow> int \<Rightarrow> (string \<rightharpoonup> string) \<Rightarrow> failure + gmap"
where
  "getDummyValue schema example intFuzz fuzzValue paramName paramOverrides =
    (case (if intFuzz then None else paramOverrides paramName) of
       Some override \<Rightarrow> Inr (GString override)
     | None \<Rightarrow>
        if example \<noteq> GNil then Inr example
        else
          let schemaType = string_field schema ''type'';
              schemaFormat = string_field schema ''format''
          in
          if schemaFormat = ''uuid'' then Inr (GString staticUUID)
          else
            (case (if schemaType = [] then as_map (lookup schema ''properties'') else None) of
               Some properties \<Rightarrow>
                 (case synth_properties properties intFuzz fuzzValue paramOverrides of
                    Inl e \<Rightarrow> Inl e | Inr result \<Rightarrow> Inr (GMap result))
             | None \<Rightarrow>
                 if schemaType = ''string'' then Inr (GString ''test_string'')
                 else if schemaType = ''integer'' then
                   (if intFuzz then
                      (case paramOverrides paramName of
                         Some override \<Rightarrow> Inr (GString override)
                       | None \<Rightarrow> Inr (GInt fuzzValue))
                    else Inr (GInt 1000))
                 else if schemaType = ''number'' then Inr (GFloat float_one)
                 else if schemaType = ''boolean'' then Inr (GBool True)
                 else if schemaType = ''array'' then
                   (case as_map (lookup schema ''items'') of
                      None \<Rightarrow> Inl RuntimePanic
                    | Some items \<Rightarrow>
                        (case getDummyValue items GNil intFuzz fuzzValue paramName paramOverrides of
                           Inl e \<Rightarrow> Inl e | Inr v \<Rightarrow> Inr (GSlice [v])))
                 else if schemaType = ''object'' then
                   (case as_map (lookup schema ''properties'') of
                      Some properties \<Rightarrow>
                        (case synth_properties properties intFuzz fuzzValue paramOverrides of
                           Inl e \<Rightarrow> Inl e | Inr result \<Rightarrow> Inr (GMap result))
                    | None \<Rightarrow> Inr (GMap []))
                 else
                   (case as_map (lookup schema ''properties'') of
                      Some properties \<Rightarrow>
                        (case synth_properties properties intFuzz fuzzValue paramOverrides of
                           Inl e \<Rightarrow> Inl e | Inr result \<Rightarrow> Inr (GMap result))
                    | None \<Rightarrow> Inr (GString ''test_value''))))"
| "synth_properties [] intFuzz fuzzValue paramOverrides = Inr []"
| "synth_properties ((key, prop) # rest) intFuzz fuzzValue paramOverrides =
    (case as_map prop of
       None \<Rightarrow> Inl RuntimePanic
     | Some propMap \<Rightarrow>
         (case getDummyValue propMap GNil intFuzz fuzzValue key paramOverrides of
            Inl e \<Rightarrow> Inl e
          | Inr v \<Rightarrow>
              (case synth_properties rest intFuzz fuzzValue paramOverrides of
                 Inl e \<Rightarrow> Inl e
               | Inr result \<Rightarrow> Inr ((key, v) # result))))"
  by pat_completeness auto

termination
proof (relation
    "measure (\<lambda>x. case x of Inl (s, _) \<Rightarrow> size (GMap s) | Inr (s, _) \<Rightarrow> size (GMap s))",
    goal_cases)
  case 1
  show ?case by simp
next
  case 2
  then show ?case by (auto split: if_splits elim: size_lookup_map)
next
  case 3
  then show ?case by (auto split: if_splits elim: size_lookup_map)
next
  case 4
  then show ?case by (auto split: if_splits elim: size_lookup_map)
next
  case 5
  then show ?case by (auto split: if_splits elim: size_lookup_map)
next
  case 6
  then show ?case by (auto simp: as_map_def split: gval.splits)
next
  case 7
  then show ?case by simp
qed

declare getDummyValue.simps [simp del]

lemmas field_defs = string_field_def lookup_def as_string_def as_map_def

subsection \<open>The decoded document\<close>

text \<open>
  The structs \<^verbatim>\<open>Parameter\<close>, \<^verbatim>\<open>Operation\<close> and \<^verbatim>\<open>PathItem\<close> (lines 18 to 38) after
  \<^verbatim>\<open>json.Unmarshal\<close>. A \<^verbatim>\<open>nil\<close> schema map reads like an empty one, so
  \<open>Schema\<close> is a plain map; \<^verbatim>\<open>RequestBody\<close> and the five operation pointers are
  compared with \<^verbatim>\<open>nil\<close>, so they are options. The parameter list of a path item is
  \<open>PathParameters\<close> (a record field name is global in HOL).
\<close>

record Parameter =
  Name :: string
  In :: string
  Required :: bool
  Schema :: gmap
  Example :: gval

record Operation =
  Parameters :: "Parameter list"
  RequestBody :: "gmap option"

record PathItem =
  Get :: "Operation option"
  Post :: "Operation option"
  Put :: "Operation option"
  Delete :: "Operation option"
  Patch :: "Operation option"
  PathParameters :: "Parameter list"

subsection \<open>hasIntegerParams\<close>

text \<open>\<^verbatim>\<open>schemaType, ok := schema["type"].(string); ok && schemaType == "integer"\<close>.\<close>

definition schema_is_integer :: "gmap \<Rightarrow> bool" where
  "schema_is_integer schema = (as_string (lookup schema ''type'') = Some ''integer'')"

text \<open>
  \<^verbatim>\<open>hasIntegerParams\<close> (lines 128 to 152). Every assertion is of the two-value form
  but \<^verbatim>\<open>jsonContent.(map[string]interface{})\<close>, which panics when the entry under
  \<^verbatim>\<open>application/json\<close> is not an object.
\<close>

definition hasIntegerParams :: "Operation \<Rightarrow> Parameter list \<Rightarrow> failure + bool" where
  "hasIntegerParams operation pathParams =
    (let allParams = pathParams @ Parameters operation in
     if list_ex (\<lambda>param. schema_is_integer (Schema param)) allParams then Inr True
     else
       (case RequestBody operation of
          None \<Rightarrow> Inr False
        | Some requestBody \<Rightarrow>
            (case as_map (lookup requestBody ''content'') of
               None \<Rightarrow> Inr False
             | Some content \<Rightarrow>
                 (case map_of content ''application/json'' of
                    None \<Rightarrow> Inr False
                  | Some jsonContent \<Rightarrow>
                      (case as_map jsonContent of
                         None \<Rightarrow> Inl RuntimePanic
                       | Some jsonMap \<Rightarrow>
                           (case as_map (lookup jsonMap ''schema'') of
                              None \<Rightarrow> Inr False
                            | Some schema \<Rightarrow> Inr (schema_is_integer schema)))))))"

subsection \<open>Strings, formatting and query encoding\<close>

text \<open>\<^verbatim>\<open>normalizeHost\<close>: \<^verbatim>\<open>strings.TrimRight(host, "/")\<close>.\<close>

definition normalizeHost :: "string \<Rightarrow> string" where
  "normalizeHost host = rev (dropWhile (\<lambda>c. c = CHR ''/'') (rev host))"

text \<open>
  \<^verbatim>\<open>strings.Replace(s, old, new, -1)\<close>: every non-overlapping occurrence of
  \<open>old\<close>, from the left. The program only calls it with a pattern that holds the two
  braces; on an empty pattern (where Go inserts \<open>new\<close> between the runes) this
  function returns \<open>s\<close>.
\<close>

fun strings_Replace :: "string \<Rightarrow> string \<Rightarrow> string \<Rightarrow> string" where
  "strings_Replace [] old new = []"
| "strings_Replace (c # cs) old new =
    (if old \<noteq> [] \<and> take (length old) (c # cs) = old
     then new @ strings_Replace (drop (length old) (c # cs)) old new
     else c # strings_Replace cs old new)"

text \<open>An \<^verbatim>\<open>int\<close> in decimal, as \<^verbatim>\<open>fmt.Sprint\<close> prints it.\<close>

fun decimal :: "nat \<Rightarrow> string" where
  "decimal n =
    (if n < 10 then [''0123456789'' ! n]
     else decimal (n div 10) @ [''0123456789'' ! (n mod 10)])"

declare decimal.simps [simp del]

definition format_int :: "int \<Rightarrow> string" where
  "format_int i = (if i < 0 then CHR ''-'' # decimal (nat (- i)) else decimal (nat i))"

text \<open>Bytewise order on strings, and sorting the entries of a map by key.\<close>

fun str_less :: "string \<Rightarrow> string \<Rightarrow> bool" where
  "str_less [] [] = False"
| "str_less [] (y # ys) = True"
| "str_less (x # xs) [] = False"
| "str_less (x # xs) (y # ys) =
    ((of_char x :: nat) < of_char y \<or> (x = y \<and> str_less xs ys))"

fun insert_by_key :: "string \<times> 'a \<Rightarrow> (string \<times> 'a) list \<Rightarrow> (string \<times> 'a) list" where
  "insert_by_key e [] = [e]"
| "insert_by_key e (x # xs) =
    (if str_less (fst x) (fst e) then x # insert_by_key e xs else e # x # xs)"

definition sort_by_key :: "(string \<times> 'a) list \<Rightarrow> (string \<times> 'a) list" where
  "sort_by_key xs = foldr insert_by_key xs []"

fun join :: "string \<Rightarrow> string list \<Rightarrow> string" where
  "join sep [] = []"
| "join sep [x] = x"
| "join sep (x # y # ys) = x @ sep @ join sep (y # ys)"

text \<open>
  Two functions of the Go library stay parameters: \<^verbatim>\<open>json.Marshal\<close> on a value (the
  program drops its error, so the result is the bytes) and the text \<^verbatim>\<open>fmt.Sprint\<close>
  prints for a \<^verbatim>\<open>float64\<close>.
\<close>

record golib =
  json_Marshal :: "gval \<Rightarrow> string"
  format_float :: "64 word \<Rightarrow> string"

text \<open>
  \<^verbatim>\<open>fmt.Sprint(value)\<close> on the values \<^verbatim>\<open>getDummyValue\<close> returns: a string as it
  is, a slice as \<^verbatim>\<open>[a b]\<close>, a map as \<^verbatim>\<open>map[k:v k:v]\<close> with the keys sorted.
\<close>

fun fmt_Sprint :: "golib \<Rightarrow> gval \<Rightarrow> string"
  and sprint_elems :: "golib \<Rightarrow> gval list \<Rightarrow> string list"
  and sprint_entries :: "golib \<Rightarrow> gmap \<Rightarrow> (string \<times> string) list"
where
  "fmt_Sprint L GNil = ''<nil>''"
| "fmt_Sprint L (GBool b) = (if b then ''true'' else ''false'')"
| "fmt_Sprint L (GInt i) = format_int i"
| "fmt_Sprint L (GFloat f) = format_float L f"
| "fmt_Sprint L (GString s) = s"
| "fmt_Sprint L (GSlice xs) = ''['' @ join '' '' (sprint_elems L xs) @ '']''"
| "fmt_Sprint L (GMap m) =
     ''map['' @ join '' '' (map (\<lambda>(k, s). k @ '':'' @ s) (sort_by_key (sprint_entries L m))) @ '']''"
| "sprint_elems L [] = []"
| "sprint_elems L (x # xs) = fmt_Sprint L x # sprint_elems L xs"
| "sprint_entries L [] = []"
| "sprint_entries L ((k, v) # m) = (k, fmt_Sprint L v) # sprint_entries L m"

text \<open>
  \<^verbatim>\<open>url.QueryEscape\<close>: letters, digits and \<^verbatim>\<open>-_.~\<close> stay, a space becomes
  \<^verbatim>\<open>+\<close>, every other byte becomes \<^verbatim>\<open>%XX\<close>.
\<close>

definition unreserved :: "char \<Rightarrow> bool" where
  "unreserved c =
    (let n = (of_char c :: nat) in
     (97 \<le> n \<and> n \<le> 122) \<or> (65 \<le> n \<and> n \<le> 90) \<or> (48 \<le> n \<and> n \<le> 57)
     \<or> c = CHR ''-'' \<or> c = CHR ''_'' \<or> c = CHR ''.'' \<or> c = CHR ''~'')"

definition upperhex :: "nat \<Rightarrow> char" where
  "upperhex n = ''0123456789ABCDEF'' ! n"

definition escape_byte :: "char \<Rightarrow> string" where
  "escape_byte c =
    (if unreserved c then [c]
     else if c = CHR '' '' then ''+''
     else [CHR ''%'', upperhex (of_char c div 16), upperhex (of_char c mod 16)])"

definition QueryEscape :: "string \<Rightarrow> string" where
  "QueryEscape s = concat (map escape_byte s)"

text \<open>
  \<^verbatim>\<open>url.Values\<close> is a map from a key to its values. \<^verbatim>\<open>Add\<close> appends a value;
  \<^verbatim>\<open>Encode\<close> sorts the keys and writes \<^verbatim>\<open>key=value\<close> for every value, with
  \<^verbatim>\<open>&\<close> before each but the first.
\<close>

type_synonym url_Values = "(string \<times> string list) list"

fun values_Add :: "url_Values \<Rightarrow> string \<Rightarrow> string \<Rightarrow> url_Values" where
  "values_Add [] key v = [(key, [v])]"
| "values_Add ((k, vs) # rest) key v =
    (if k = key then (k, vs @ [v]) # rest else (k, vs) # values_Add rest key v)"

fun encode_values :: "string \<Rightarrow> string list \<Rightarrow> string \<Rightarrow> string" where
  "encode_values keyEscaped [] buf = buf"
| "encode_values keyEscaped (v # vs) buf =
    encode_values keyEscaped vs
      ((if buf \<noteq> [] then buf @ ''&'' else buf) @ keyEscaped @ ''='' @ QueryEscape v)"

fun encode_keys :: "url_Values \<Rightarrow> string \<Rightarrow> string" where
  "encode_keys [] buf = buf"
| "encode_keys ((k, vs) # rest) buf = encode_keys rest (encode_values (QueryEscape k) vs buf)"

definition values_Encode :: "url_Values \<Rightarrow> string" where
  "values_Encode v = encode_keys (sort_by_key v) []"

text \<open>\<^verbatim>\<open>m[key] = v\<close> on a map of interfaces.\<close>

fun map_assign :: "gmap \<Rightarrow> string \<Rightarrow> gval \<Rightarrow> gmap" where
  "map_assign [] key v = [(key, v)]"
| "map_assign ((k, w) # rest) key v =
    (if k = key then (k, v) # rest else (k, w) # map_assign rest key v)"

subsection \<open>Building one request\<close>

text \<open>
  The values \<^verbatim>\<open>main\<close> reads from its flags: the swagger file name and the host, the
  set of allowed methods (\<^verbatim>\<open>methodsMap\<close>; a missing key reads \<^verbatim>\<open>false\<close>), the fuzzing
  flag, the parsed headers and the parsed overrides.
\<close>

record config =
  swaggerFile :: string
  host :: string
  methodsMap :: "string \<Rightarrow> bool"
  intFuzzing :: bool
  headerMap :: "(string \<times> string) list"
  paramOverrideMap :: "string \<rightharpoonup> string"

text \<open>
  The struct sent on \<^verbatim>\<open>requestChan\<close> (lines 386 to 396). A \<^verbatim>\<open>nil\<close> body is the
  empty byte string: the worker reads it through \<^verbatim>\<open>string(req.body)\<close>.
\<close>

record descriptor =
  req_method :: string
  req_url :: string
  req_body :: string
  req_headerMap :: "(string \<times> string) list"

text \<open>The three variables the loop over \<^verbatim>\<open>allParams\<close> updates (lines 343 to 345).\<close>

record req_state =
  requestURL :: string
  queryParams :: url_Values
  bodyParams :: gmap

text \<open>
  A \<^verbatim>\<open>for ... range\<close> loop whose body may panic: the state is threaded through the
  elements in order, and a panic ends the loop with the state reached so far.
\<close>

fun for_each ::
    "('a \<Rightarrow> 's \<Rightarrow> 's \<times> failure option) \<Rightarrow> 'a list \<Rightarrow> 's \<Rightarrow> 's \<times> failure option" where
  "for_each body [] s = (s, None)"
| "for_each body (x # xs) s =
    (case body x s of
       (s', None) \<Rightarrow> for_each body xs s'
     | (s', Some e) \<Rightarrow> (s', Some e))"

definition body_method :: "string \<Rightarrow> bool" where
  "body_method method = (method = ''POST'' \<or> method = ''PUT'' \<or> method = ''PATCH'')"

text \<open>The body of the loop over \<^verbatim>\<open>allParams\<close> (lines 347 to 361).\<close>

definition param_step ::
    "golib \<Rightarrow> config \<Rightarrow> string \<Rightarrow> int \<Rightarrow> Parameter \<Rightarrow> req_state \<Rightarrow> req_state \<times> failure option" where
  "param_step L cfg method fuzzValue param st =
    (case getDummyValue (Schema param) (Example param) (intFuzzing cfg) fuzzValue (Name param)
            (paramOverrideMap cfg) of
       Inl e \<Rightarrow> (st, Some e)
     | Inr v \<Rightarrow>
         (if body_method method \<and> In param = ''query''
          then st\<lparr>bodyParams := map_assign (bodyParams st) (Name param) v\<rparr>
          else if In param = ''path''
          then st\<lparr>requestURL :=
                   strings_Replace (requestURL st) (''{'' @ Name param @ ''}'') (fmt_Sprint L v)\<rparr>
          else if In param = ''query''
          then st\<lparr>queryParams := values_Add (queryParams st) (Name param) (fmt_Sprint L v)\<rparr>
          else st,
          None))"

text \<open>
  The request body (lines 367 to 383); \<open>folded\<close> is \<^verbatim>\<open>bodyParams\<close> after the loop.
  With a request body declared, \<^verbatim>\<open>content\<close>, the entry under
  \<^verbatim>\<open>application/json\<close> and its \<^verbatim>\<open>schema\<close> are asserted to be objects without a
  test, and the \<^verbatim>\<open>else\<close> branch is not taken.
\<close>

definition request_body ::
    "golib \<Rightarrow> config \<Rightarrow> string \<Rightarrow> Operation \<Rightarrow> int \<Rightarrow> gmap \<Rightarrow> failure + string" where
  "request_body L cfg method operation fuzzValue folded =
    (case RequestBody operation of
       Some requestBody \<Rightarrow>
         (case as_map (lookup requestBody ''content'') of
            None \<Rightarrow> Inl RuntimePanic
          | Some content \<Rightarrow>
              (case map_of content ''application/json'' of
                 None \<Rightarrow> Inr []
               | Some jsonContent \<Rightarrow>
                   (case as_map jsonContent of
                      None \<Rightarrow> Inl RuntimePanic
                    | Some jsonMap \<Rightarrow>
                        (case as_map (lookup jsonMap ''schema'') of
                           None \<Rightarrow> Inl RuntimePanic
                         | Some schema \<Rightarrow>
                             (case getDummyValue schema GNil (intFuzzing cfg) fuzzValue []
                                     (paramOverrideMap cfg) of
                                Inl e \<Rightarrow> Inl e
                              | Inr bodyData \<Rightarrow> Inr (json_Marshal L bodyData))))))
     | None \<Rightarrow>
         if body_method method
         then (if folded \<noteq> [] then Inr (json_Marshal L (GMap folded)) else Inr ''{}'')
         else Inr [])"

text \<open>
  One pass of the loop over the fuzz values, up to the send (lines 339 to 396).
  The host is \<^verbatim>\<open>normalizedHost\<close>.
\<close>

definition build_request ::
    "golib \<Rightarrow> config \<Rightarrow> string \<Rightarrow> PathItem \<Rightarrow> string \<Rightarrow> Operation \<Rightarrow> int
      \<Rightarrow> failure + descriptor" where
  "build_request L cfg path pathItem method operation fuzzValue =
    (let allParams = PathParameters pathItem @ Parameters operation;
         st0 = \<lparr>requestURL = normalizeHost (host cfg) @ path, queryParams = [], bodyParams = []\<rparr>
     in case for_each (param_step L cfg method fuzzValue) allParams st0 of
          (st, Some e) \<Rightarrow> Inl e
        | (st, None) \<Rightarrow>
            (case request_body L cfg method operation fuzzValue (bodyParams st) of
               Inl e \<Rightarrow> Inl e
             | Inr body \<Rightarrow>
                 Inr \<lparr>req_method = method,
                      req_url = (if queryParams st \<noteq> []
                                 then requestURL st @ ''?'' @ values_Encode (queryParams st)
                                 else requestURL st),
                      req_body = body,
                      req_headerMap = headerMap cfg\<rparr>))"

subsection \<open>The two loops of main\<close>

text \<open>
  The map literal \<^verbatim>\<open>operations\<close> (lines 233 to 239 and 319 to 325) and its five keys.
\<close>

definition operations :: "PathItem \<Rightarrow> string \<Rightarrow> Operation option" where
  "operations pathItem method =
    (if method = ''GET'' then Get pathItem
     else if method = ''POST'' then Post pathItem
     else if method = ''PUT'' then Put pathItem
     else if method = ''DELETE'' then Delete pathItem
     else if method = ''PATCH'' then Patch pathItem
     else None)"

definition method_keys :: "string list" where
  "method_keys = [''GET'', ''POST'', ''PUT'', ''DELETE'', ''PATCH'']"

text \<open>
  Go does not fix the order in which a \<^verbatim>\<open>range\<close> visits a map, and \<^verbatim>\<open>main\<close>
  ranges over \<^verbatim>\<open>api.Paths\<close> and over \<^verbatim>\<open>operations\<close> twice. A \<open>range_order\<close> is
  the order of one of the two nests of loops: the entries of \<^verbatim>\<open>api.Paths\<close> as
  visited, and for each path the order of the five method keys.
\<close>

record range_order =
  paths_order :: "(string \<times> PathItem) list"
  methods_order :: "string \<Rightarrow> string list"

text \<open>The counting loop (lines 231 to 253). \<^verbatim>\<open>totalRequests\<close> is far from the
  range of a 64-bit \<^verbatim>\<open>int\<close> for any document that fits in memory; it is a \<open>nat\<close>.\<close>

definition count_operation :: "config \<Rightarrow> PathItem \<Rightarrow> string \<Rightarrow> nat \<Rightarrow> nat \<times> failure option" where
  "count_operation cfg pathItem method totalRequests =
    (case operations pathItem method of
       None \<Rightarrow> (totalRequests, None)
     | Some operation \<Rightarrow>
         if \<not> methodsMap cfg method then (totalRequests, None)
         else
           (case hasIntegerParams operation (PathParameters pathItem) of
              Inl e \<Rightarrow> (totalRequests, Some e)
            | Inr hasIntegers \<Rightarrow>
                (if intFuzzing cfg \<and> hasIntegers
                 then totalRequests + length intFuzzValues
                 else totalRequests + 1,
                 None)))"

definition count_path ::
    "config \<Rightarrow> (string \<Rightarrow> string list) \<Rightarrow> string \<times> PathItem \<Rightarrow> nat \<Rightarrow> nat \<times> failure option" where
  "count_path cfg order entry totalRequests =
    for_each (count_operation cfg (snd entry)) (order (fst entry)) totalRequests"

definition count_requests :: "config \<Rightarrow> range_order \<Rightarrow> nat \<times> failure option" where
  "count_requests cfg ro = for_each (count_path cfg (methods_order ro)) (paths_order ro) 0"

text \<open>
  The building loop (lines 317 to 399). The state is the list of descriptors sent on
  the channel so far; a send follows each request that was built.
\<close>

definition send_request ::
    "golib \<Rightarrow> config \<Rightarrow> string \<Rightarrow> PathItem \<Rightarrow> string \<Rightarrow> Operation \<Rightarrow> int \<Rightarrow> descriptor list
      \<Rightarrow> descriptor list \<times> failure option" where
  "send_request L cfg path pathItem method operation fuzzValue sent =
    (case build_request L cfg path pathItem method operation fuzzValue of
       Inl e \<Rightarrow> (sent, Some e)
     | Inr d \<Rightarrow> (sent @ [d], None))"

definition process_operation ::
    "golib \<Rightarrow> config \<Rightarrow> string \<Rightarrow> PathItem \<Rightarrow> string \<Rightarrow> descriptor list
      \<Rightarrow> descriptor list \<times> failure option" where
  "process_operation L cfg path pathItem method sent =
    (case operations pathItem method of
       None \<Rightarrow> (sent, None)
     | Some operation \<Rightarrow>
         if \<not> methodsMap cfg method then (sent, None)
         else
           (case hasIntegerParams operation (PathParameters pathItem) of
              Inl e \<Rightarrow> (sent, Some e)
            | Inr hasIntegers \<Rightarrow>
                for_each (send_request L cfg path pathItem method operation)
                  (if intFuzzing cfg \<and> hasIntegers then intFuzzValues else [1000]) sent))"

definition process_path ::
    "golib \<Rightarrow> config \<Rightarrow> (string \<Rightarrow> string list) \<Rightarrow> string \<times> PathItem \<Rightarrow> descriptor list
      \<Rightarrow> descriptor list \<times> failure option" where
  "process_path L cfg order entry sent =
    for_each (process_operation L cfg (fst entry) (snd entry)) (order (fst entry)) sent"

definition process_paths ::
    "golib \<Rightarrow> config \<Rightarrow> range_order \<Rightarrow> descriptor list \<times> failure option" where
  "process_paths L cfg ro = for_each (process_path L cfg (methods_order ro)) (paths_order ro) []"

text \<open>
  \<^verbatim>\<open>main\<close> from the check of the two required flags on, given the decoded document
  (reading the file, decoding it and parsing the proxy address come in between and are
  not part of the embedding). The document is given twice, as the order in which the
  counting loop visits it (\<open>first\<close>) and the order in which the building loop does
  (\<open>second\<close>). The result is \<^verbatim>\<open>totalRequests\<close>, the descriptors sent, and how the
  run ended.
\<close>

definition main ::
    "golib \<Rightarrow> config \<Rightarrow> range_order \<Rightarrow> range_order
      \<Rightarrow> (nat \<times> descriptor list) \<times> failure option" where
  "main L cfg first second =
    (if swaggerFile cfg = [] \<or> host cfg = []
     then ((0, []), Some (Exit1 ''Please provide swagger file path and host''))
     else
       (case count_requests cfg first of
          (totalRequests, Some e) \<Rightarrow> ((totalRequests, []), Some e)
        | (totalRequests, None) \<Rightarrow>
            (case process_paths L cfg second of
               (sent, status) \<Rightarrow> ((totalRequests, sent), status))))"

subsection \<open>The number of requests an operation stands for\<close>

text \<open>
  What one pass of either loop of \<^verbatim>\<open>main\<close> adds for a method of a path item, when
  it does not panic; used to relate the two loops.
\<close>

definition op_weight :: "config \<Rightarrow> PathItem \<Rightarrow> string \<Rightarrow> nat" where
  "op_weight cfg pathItem method =
    (case operations pathItem method of
       None \<Rightarrow> 0
     | Some operation \<Rightarrow>
         if \<not> methodsMap cfg method then 0
         else
           (case hasIntegerParams operation (PathParameters pathItem) of
              Inl e \<Rightarrow> 0
            | Inr hasIntegers \<Rightarrow> if intFuzzing cfg \<and> hasIntegers then 32 else 1))"

definition path_weight :: "config \<Rightarrow> (string \<Rightarrow> string list) \<Rightarrow> string \<times> PathItem \<Rightarrow> nat" where
  "path_weight cfg order entry = sum_list (map (op_weight cfg (snd entry)) (order (fst entry)))"

subsection \<open>Malformed nodes\<close>




subsection \<open>The folded parameters and the declared body schema\<close>

text \<open>
  The query-declared parameters of a list with the values synthesised for them, in
  the order of the list; a later entry for a name replaces an earlier one in the map
  that the loop builds.
\<close>

definition query_values :: "config \<Rightarrow> int \<Rightarrow> Parameter list \<Rightarrow> (string \<times> gval) list" where
  "query_values cfg fuzzValue params =
    concat (map (\<lambda>param.
      if In param = ''query'' then
        (case getDummyValue (Schema param) (Example param) (intFuzzing cfg) fuzzValue (Name param)
                (paramOverrideMap cfg) of
           Inl e \<Rightarrow> []
         | Inr v \<Rightarrow> [(Name param, v)])
      else []) params)"

text \<open>
  The body schema an operation declares:
  \<^verbatim>\<open>requestBody.content["application/json"].schema\<close>, when each step is an object.
\<close>

definition body_schema :: "Operation \<Rightarrow> gmap option" where
  "body_schema operation =
    (case RequestBody operation of
       None \<Rightarrow> None
     | Some requestBody \<Rightarrow>
         (case as_map (lookup requestBody ''content'') of
            None \<Rightarrow> None
          | Some content \<Rightarrow>
              (case map_of content ''application/json'' of
                 None \<Rightarrow> None
               | Some jsonContent \<Rightarrow>
                   (case as_map jsonContent of
                      None \<Rightarrow> None
                    | Some jsonMap \<Rightarrow> as_map (lookup jsonMap ''schema'')))))"

text \<open>
  Eligibility for fuzzing in the words of the specification: some merged parameter
  has a schema of type integer, or the declared body schema has type integer.
\<close>

definition eligible :: "PathItem \<Rightarrow> Operation \<Rightarrow> bool" where
  "eligible pathItem operation \<longleftrightarrow>
     list_ex (\<lambda>param. schema_is_integer (Schema param))
       (PathParameters pathItem @ Parameters operation) \<or>
     (case body_schema operation of
        Some schema \<Rightarrow> schema_is_integer schema
      | None \<Rightarrow> False)"

text \<open>The three variables after the loop over \<^verbatim>\<open>allParams\<close>.\<close>

definition params_state ::
    "golib \<Rightarrow> config \<Rightarrow> string \<Rightarrow> PathItem \<Rightarrow> string \<Rightarrow> Operation \<Rightarrow> int \<Rightarrow> req_state" where
  "params_state L cfg path pathItem method operation fuzzValue =
    fst (for_each (param_step L cfg method fuzzValue)
           (PathParameters pathItem @ Parameters operation)
           \<lparr>requestURL = normalizeHost (host cfg) @ path, queryParams = [], bodyParams = []\<rparr>)"

subsection \<open>Path templates\<close>

text \<open>
  A template is text without braces and placeholders \<^verbatim>\<open>{name}\<close> whose names have
  no braces; \<open>render\<close> is the string it stands for, \<open>fill\<close> puts a value in the place
  of every placeholder of one name. A string has a placeholder when an opening brace
  is followed, somewhere, by a closing one.
\<close>

datatype segment = Text string | Hole string

fun render :: "segment list \<Rightarrow> string" where
  "render [] = []"
| "render (Text s # rest) = s @ render rest"
| "render (Hole name # rest) = ''{'' @ name @ ''}'' @ render rest"

definition brace_free :: "string \<Rightarrow> bool" where
  "brace_free s \<longleftrightarrow> CHR ''{'' \<notin> set s \<and> CHR ''}'' \<notin> set s"

fun has_placeholder :: "string \<Rightarrow> bool" where
  "has_placeholder [] = False"
| "has_placeholder (c # cs) = ((c = CHR ''{'' \<and> CHR ''}'' \<in> set cs) \<or> has_placeholder cs)"

fun segment_ok :: "segment \<Rightarrow> bool" where
  "segment_ok (Text s) = brace_free s"
| "segment_ok (Hole name) = brace_free name"

definition wf_template :: "segment list \<Rightarrow> bool" where
  "wf_template template = list_all segment_ok template"

fun holes :: "segment list \<Rightarrow> string list" where
  "holes [] = []"
| "holes (Text s # rest) = holes rest"
| "holes (Hole name # rest) = name # holes rest"

fun fill :: "string \<Rightarrow> string \<Rightarrow> segment list \<Rightarrow> segment list" where
  "fill name v [] = []"
| "fill name v (Text s # rest) = Text s # fill name v rest"
| "fill name v (Hole h # rest) =
    (if h = name then Text v # fill name v rest else Hole h # fill name v rest)"

subsection \<open>Concrete documents\<close>

text \<open>
  The inputs of the closed examples. For the two library parameters they use JSON
  text without string escapes and the digit 1 for a \<^verbatim>\<open>float64\<close>: this is what
  \<^verbatim>\<open>json.Marshal\<close> and \<^verbatim>\<open>fmt.Sprint\<close> print for the values that occur in the examples
  (strings of letters, digits and underscores, and no \<^verbatim>\<open>float64\<close> but 1.0).
\<close>

fun plain_json :: "gval \<Rightarrow> string"
  and plain_json_elems :: "gval list \<Rightarrow> string list"
  and plain_json_entries :: "gmap \<Rightarrow> (string \<times> string) list"
where
  "plain_json GNil = ''null''"
| "plain_json (GBool b) = (if b then ''true'' else ''false'')"
| "plain_json (GInt i) = format_int i"
| "plain_json (GFloat f) = ''1''"
| "plain_json (GString s) = [CHR 0x22] @ s @ [CHR 0x22]"
| "plain_json (GSlice xs) = ''['' @ join '','' (plain_json_elems xs) @ '']''"
| "plain_json (GMap m) =
     ''{'' @ join '','' (map (\<lambda>(k, s). [CHR 0x22] @ k @ [CHR 0x22] @ '':'' @ s)
                          (sort_by_key (plain_json_entries m))) @ ''}''"
| "plain_json_elems [] = []"
| "plain_json_elems (x # xs) = plain_json x # plain_json_elems xs"
| "plain_json_entries [] = []"
| "plain_json_entries ((k, v) # m) = (k, plain_json v) # plain_json_entries m"

definition example_lib :: golib where
  "example_lib = \<lparr>json_Marshal = plain_json, format_float = (\<lambda>f. ''1'')\<rparr>"

text \<open>Only GET allowed, fuzzing off, no header, no override.\<close>

definition cfg_get :: config where
  "cfg_get = \<lparr>swaggerFile = ''swagger.json'', host = ''https://api.example.com/'',
     methodsMap = (\<lambda>m. m = ''GET''), intFuzzing = False, headerMap = [],
     paramOverrideMap = Map.empty\<rparr>"

definition id_param :: Parameter where
  "id_param = \<lparr>Name = ''id'', In = ''path'', Required = True,
     Schema = [(''type'', GString ''integer'')], Example = GNil\<rparr>"

text \<open>An array schema with no \<^verbatim>\<open>items\<close>.\<close>

definition tags_param :: Parameter where
  "tags_param = \<lparr>Name = ''tags'', In = ''query'', Required = False,
     Schema = [(''type'', GString ''array'')], Example = GNil\<rparr>"

definition name_param :: Parameter where
  "name_param = \<lparr>Name = ''name'', In = ''query'', Required = False,
     Schema = [(''type'', GString ''string'')], Example = GNil\<rparr>"

definition get_only :: "Operation \<Rightarrow> PathItem" where
  "get_only operation = \<lparr>Get = Some operation, Post = None, Put = None, Delete = None,
     Patch = None, PathParameters = []\<rparr>"

definition item_op :: Operation where
  "item_op = \<lparr>Parameters = [id_param], RequestBody = None\<rparr>"

definition tags_op :: Operation where
  "tags_op = \<lparr>Parameters = [tags_param], RequestBody = None\<rparr>"

definition pets_op :: Operation where
  "pets_op = \<lparr>Parameters = [name_param], RequestBody = None\<rparr>"

text \<open>Only POST allowed.\<close>

definition cfg_post :: config where
  "cfg_post = \<lparr>swaggerFile = ''swagger.json'', host = ''https://api.example.com/'',
     methodsMap = (\<lambda>m. m = ''POST''), intFuzzing = False, headerMap = [],
     paramOverrideMap = Map.empty\<rparr>"

definition post_only :: "Operation \<Rightarrow> PathItem" where
  "post_only operation = \<lparr>Get = None, Post = Some operation, Put = None, Delete = None,
     Patch = None, PathParameters = []\<rparr>"

text \<open>A request body that has a description and no \<^verbatim>\<open>content\<close>.\<close>

definition upload_op :: Operation where
  "upload_op = \<lparr>Parameters = [],
     RequestBody = Some [(''description'', GString ''the file'')]\<rparr>"

text \<open>A header parameter, and an operation that declares it before \<open>id_param\<close>.\<close>

definition auth_param :: Parameter where
  "auth_param = \<lparr>Name = ''X-Token'', In = ''header'', Required = True,
     Schema = [(''type'', GString ''string'')], Example = GNil\<rparr>"

definition secure_op :: Operation where
  "secure_op = \<lparr>Parameters = [auth_param, id_param], RequestBody = None\<rparr>"

text \<open>
  Three operations with the query parameter \<open>name_param\<close>: one with a JSON body
  schema, one whose request body only has a \<^verbatim>\<open>text/plain\<close> entry, one without a
  request body.
\<close>

definition pet_op :: Operation where
  "pet_op = \<lparr>Parameters = [name_param],
     RequestBody = Some [(''content'', GMap [(''application/json'',
       GMap [(''schema'', GMap [(''type'', GString ''object''),
         (''properties'', GMap [(''age'', GMap [(''type'', GString ''integer'')])])])])])]\<rparr>"

definition notes_op :: Operation where
  "notes_op = \<lparr>Parameters = [name_param],
     RequestBody = Some [(''content'', GMap [(''text/plain'',
       GMap [(''schema'', GMap [(''type'', GString ''string'')])])])]\<rparr>"

definition create_op :: Operation where
  "create_op = \<lparr>Parameters = [name_param], RequestBody = None\<rparr>"

text \<open>
  A path item and an operation that both declare \<^verbatim>\<open>id\<close> (in the path) and
  \<^verbatim>\<open>limit\<close> (in the query), with different examples.
\<close>

definition shared_params :: "string \<Rightarrow> string \<Rightarrow> Parameter list" where
  "shared_params id_example limit_example =
    [\<lparr>Name = ''id'', In = ''path'', Required = True,
        Schema = [(''type'', GString ''string'')], Example = GString id_example\<rparr>,
     \<lparr>Name = ''limit'', In = ''query'', Required = False,
        Schema = [(''type'', GString ''string'')], Example = GString limit_example\<rparr>]"

definition both_op :: Operation where
  "both_op = \<lparr>Parameters = shared_params ''B'' ''20'', RequestBody = None\<rparr>"

definition shared_item :: PathItem where
  "shared_item = \<lparr>Get = Some both_op, Post = Some both_op, Put = None, Delete = None,
     Patch = None, PathParameters = shared_params ''A'' ''10''\<rparr>"

section \<open>Theorems about getDummyValue\<close>

text \<open>Every failure of a synthesis is a runtime panic.\<close>

lemma lift_Inl:
  "(case x of Inl e \<Rightarrow> Inl e | Inr r \<Rightarrow> Inr (f r)) = Inl e' \<longleftrightarrow> x = Inl e'"
  by (cases x) auto

lemma getDummyValue_panic:
  "getDummyValue schema example intFuzz fuzzValue paramName paramOverrides = Inl e \<Longrightarrow> e = RuntimePanic"
  "synth_properties properties intFuzz fuzzValue paramOverrides = Inl e \<Longrightarrow> e = RuntimePanic"
proof (induction schema example intFuzz fuzzValue paramName paramOverrides
    and properties intFuzz fuzzValue paramOverrides
    rule: getDummyValue_synth_properties.induct)
  case (1 schema example intFuzz fuzzValue paramName paramOverrides)
  note IH = "1.IH"
  from "1.prems" show ?case
    apply (subst (asm) getDummyValue.simps)
    apply (simp add: lift_Inl Let_def split: option.splits if_splits)
    apply (rule IH; (simp; fail))+
    done
next
  case (2 intFuzz fuzzValue paramOverrides)
  then show ?case by simp
next
  case (3 key entry rest intFuzz fuzzValue paramOverrides)
  from "3.prems" "3.IH" show ?case
    by (auto split: option.splits sum.splits)
qed

text \<open>What the loop over \<^verbatim>\<open>properties\<close> returns when it does not panic.\<close>

lemma synth_properties_Inr:
  "synth_properties properties intFuzz fuzzValue paramOverrides = Inr result \<Longrightarrow>
     list_all2 (\<lambda>entry out. fst out = fst entry \<and>
        (\<exists>m. as_map (snd entry) = Some m \<and>
           getDummyValue m GNil intFuzz fuzzValue (fst entry) paramOverrides = Inr (snd out)))
       properties result"
proof (induction properties arbitrary: result)
  case Nil
  then show ?case by simp
next
  case (Cons entry rest)
  obtain key v where e: "entry = (key, v)" by (cases entry)
  from Cons.prems e show ?case
    by (auto split: option.splits sum.splits intro: Cons.IH)
qed

lemma synth_properties_all:
  "list_all2 (\<lambda>entry out. fst out = fst entry \<and>
        (\<exists>m. as_map (snd entry) = Some m \<and>
           getDummyValue m GNil intFuzz fuzzValue (fst entry) paramOverrides = Inr (snd out)))
       properties result \<Longrightarrow>
   synth_properties properties intFuzz fuzzValue paramOverrides = Inr result"
proof (induction properties result rule: list_all2_induct)
  case Nil
  show ?case by simp
next
  case (Cons entry rest out outs)
  obtain key v where e: "entry = (key, v)" by (cases entry)
  obtain k w where out: "out = (k, w)" by (cases out)
  from Cons e out show ?case by auto
qed

text \<open>
  C8. With fuzzing off and an override for the parameter name, \<open>getDummyValue\<close>
  returns the override literal, whatever the example and the schema are (so before the
  example, the uuid format and every rule on the type). When no override applies
  (fuzzing is on, or the table has no entry for the name) and an example is present,
  it returns the example unchanged.
\<close>

theorem getDummyValue_override_example:
  "(\<not> intFuzz \<and> paramOverrides paramName = Some override \<longrightarrow>
      getDummyValue schema example intFuzz fuzzValue paramName paramOverrides
        = Inr (GString override)) \<and>
   ((intFuzz \<or> paramOverrides paramName = None) \<and> example \<noteq> GNil \<longrightarrow>
      getDummyValue schema example intFuzz fuzzValue paramName paramOverrides
        = Inr example)"
  by (auto simp: getDummyValue.simps)

theorem getDummyValue_override_example_witness:
  "[''id'' \<mapsto> ''42''] ''id'' = Some ''42'' \<and>
   getDummyValue [(''type'', GString ''integer''), (''format'', GString ''uuid'')]
     (GString ''ex'') False 1000 ''id'' [''id'' \<mapsto> ''42''] = Inr (GString ''42'') \<and>
   GString ''ex'' \<noteq> GNil \<and>
   getDummyValue [(''type'', GString ''integer''), (''format'', GString ''uuid'')]
     (GString ''ex'') True 5 ''id'' [''id'' \<mapsto> ''42''] = Inr (GString ''ex'')"
  using getDummyValue_override_example
    [of False "[''id'' \<mapsto> ''42'']" "''id''" "''42''"
        "[(''type'', GString ''integer''), (''format'', GString ''uuid'')]" "GString ''ex''" 1000]
    getDummyValue_override_example
    [of True "[''id'' \<mapsto> ''42'']" "''id''" "''42''"
        "[(''type'', GString ''integer''), (''format'', GString ''uuid'')]" "GString ''ex''" 5]
  by simp

text \<open>
  C9, as amended. With no applicable override, no example and a format other than
  uuid, a schema whose type is none of string, integer, number, boolean, array and
  object (a missing type is the empty string here) yields the fallback string
  \<^verbatim>\<open>test_value\<close> when it has no \<^verbatim>\<open>properties\<close> object. When it has one, the
  result is that of the loop over the properties: an object, when every entry is an
  object whose synthesis under its property name (with no example) gives a value, and
  then each name has that value; a runtime panic otherwise.
\<close>

theorem getDummyValue_fallback:
  assumes "intFuzz \<or> paramOverrides paramName = None"
    and "example = GNil"
    and "string_field schema ''format'' \<noteq> ''uuid''"
    and "string_field schema ''type'' \<notin>
          {''string'', ''integer'', ''number'', ''boolean'', ''array'', ''object''}"
  shows "getDummyValue schema example intFuzz fuzzValue paramName paramOverrides =
           (case as_map (lookup schema ''properties'') of
              None \<Rightarrow> Inr (GString ''test_value'')
            | Some properties \<Rightarrow>
                (case synth_properties properties intFuzz fuzzValue paramOverrides of
                   Inl e \<Rightarrow> Inl e
                 | Inr result \<Rightarrow> Inr (GMap result))) \<and>
         (\<forall>properties e. synth_properties properties intFuzz fuzzValue paramOverrides = Inl e
            \<longrightarrow> e = RuntimePanic) \<and>
         (\<forall>properties result.
            synth_properties properties intFuzz fuzzValue paramOverrides = Inr result \<longleftrightarrow>
            list_all2 (\<lambda>entry out. fst out = fst entry \<and>
               (\<exists>m. as_map (snd entry) = Some m \<and>
                  getDummyValue m GNil intFuzz fuzzValue (fst entry) paramOverrides
                    = Inr (snd out)))
              properties result)"
proof -
  have "getDummyValue schema example intFuzz fuzzValue paramName paramOverrides =
           (case as_map (lookup schema ''properties'') of
              None \<Rightarrow> Inr (GString ''test_value'')
            | Some properties \<Rightarrow>
                (case synth_properties properties intFuzz fuzzValue paramOverrides of
                   Inl e \<Rightarrow> Inl e
                 | Inr result \<Rightarrow> Inr (GMap result)))"
    using assms by (auto simp: getDummyValue.simps Let_def split: option.splits)
  moreover have "e = RuntimePanic"
    if "synth_properties properties intFuzz fuzzValue paramOverrides = Inl e" for properties e
    using that by (rule getDummyValue_panic(2))
  moreover have "synth_properties properties intFuzz fuzzValue paramOverrides = Inr result \<longleftrightarrow>
      list_all2 (\<lambda>entry out. fst out = fst entry \<and>
         (\<exists>m. as_map (snd entry) = Some m \<and>
            getDummyValue m GNil intFuzz fuzzValue (fst entry) paramOverrides = Inr (snd out)))
        properties result" for properties result
    using synth_properties_Inr synth_properties_all by blast
  ultimately show ?thesis by blast
qed

theorem getDummyValue_fallback_witness:
  "getDummyValue [(''type'', GString ''widget'')] GNil False 1000 ''p'' Map.empty
     = Inr (GString ''test_value'') \<and>
   getDummyValue [] GNil True 5 ''p'' [''p'' \<mapsto> ''42''] = Inr (GString ''test_value'') \<and>
   as_map (lookup [(''type'', GString ''widget''), (''properties'', GMap [(''a'', GString ''x'')])]
            ''properties'') = Some [(''a'', GString ''x'')] \<and>
   synth_properties [(''a'', GString ''x'')] False 1000 Map.empty = Inl RuntimePanic \<and>
   getDummyValue [(''type'', GString ''widget''), (''properties'', GMap [(''a'', GString ''x'')])]
     GNil False 1000 ''p'' Map.empty = Inl RuntimePanic \<and>
   getDummyValue
     [(''type'', GString ''widget''),
      (''properties'', GMap [(''a'', GMap [(''type'', GString ''string'')])])]
     GNil False 1000 ''p'' Map.empty = Inr (GMap [(''a'', GString ''test_string'')])"
proof -
  let ?good = "[(''type'', GString ''widget''),
      (''properties'', GMap [(''a'', GMap [(''type'', GString ''string'')])])]"
  let ?bad = "[(''type'', GString ''widget''), (''properties'', GMap [(''a'', GString ''x'')])]"
  have a: "getDummyValue [(''type'', GString ''widget'')] GNil False 1000 ''p'' Map.empty
             = Inr (GString ''test_value'')"
    using getDummyValue_fallback
      [of False Map.empty "''p''" GNil "[(''type'', GString ''widget'')]" 1000]
    by (simp add: field_defs)
  have b: "getDummyValue [] GNil True 5 ''p'' [''p'' \<mapsto> ''42''] = Inr (GString ''test_value'')"
    using getDummyValue_fallback [of True "[''p'' \<mapsto> ''42'']" "''p''" GNil "[]" 5]
    by (simp add: field_defs)
  have l: "as_map (lookup ?bad ''properties'') = Some [(''a'', GString ''x'')]"
    by (simp add: field_defs)
  have s: "synth_properties [(''a'', GString ''x'')] False 1000 Map.empty = Inl RuntimePanic"
    by (simp add: as_map_def)
  have c: "getDummyValue ?bad GNil False 1000 ''p'' Map.empty = Inl RuntimePanic"
    using getDummyValue_fallback [of False Map.empty "''p''" GNil ?bad 1000] s
    by (simp add: field_defs)
  have t: "synth_properties [(''a'', GMap [(''type'', GString ''string'')])] False 1000 Map.empty
             = Inr [(''a'', GString ''test_string'')]"
    by (simp add: getDummyValue.simps field_defs)
  have g: "getDummyValue ?good GNil False 1000 ''p'' Map.empty
             = Inr (GMap [(''a'', GString ''test_string'')])"
    using getDummyValue_fallback [of False Map.empty "''p''" GNil ?good 1000] t
    by (simp add: field_defs)
  from a b l s c g show ?thesis by simp
qed

text \<open>
  C9 as stated fails: a type outside the six that comes with a \<^verbatim>\<open>properties\<close>
  object is synthesised as an object (the \<^verbatim>\<open>default\<close> branch, lines 110 to 119),
  not as the fallback string.
\<close>

theorem getDummyValue_fallback_counterexample:
  "getDummyValue
     [(''type'', GString ''widget''),
      (''properties'', GMap [(''a'', GMap [(''type'', GString ''string'')])])]
     GNil False 1000 ''p'' Map.empty
   = Inr (GMap [(''a'', GString ''test_string'')])"
  by (simp add: getDummyValue.simps field_defs Let_def)

text \<open>
  C1, as amended. For a schema of type integer with no example and a format other than
  uuid: an override for the parameter name is returned whether fuzzing is on or off;
  without one, the result is the current fuzz value when fuzzing is on and the integer
  1000 when it is off.
\<close>

theorem getDummyValue_integer:
  assumes "string_field schema ''type'' = ''integer''"
    and "example = GNil"
    and "string_field schema ''format'' \<noteq> ''uuid''"
  shows "getDummyValue schema example intFuzz fuzzValue paramName paramOverrides =
          (case paramOverrides paramName of
             Some override \<Rightarrow> Inr (GString override)
           | None \<Rightarrow> Inr (GInt (if intFuzz then fuzzValue else 1000)))"
  using assms by (auto simp: getDummyValue.simps Let_def split: option.splits)

theorem getDummyValue_integer_witness:
  "getDummyValue [(''type'', GString ''integer'')] GNil True 5000 ''id'' Map.empty
     = Inr (GInt 5000) \<and>
   getDummyValue [(''type'', GString ''integer'')] GNil True 5000 ''id'' [''id'' \<mapsto> ''42'']
     = Inr (GString ''42'') \<and>
   getDummyValue [(''type'', GString ''integer'')] GNil False 1000 ''id'' Map.empty
     = Inr (GInt 1000)"
proof -
  have t: "string_field [(''type'', GString ''integer'')] ''type'' = ''integer''"
    and f: "string_field [(''type'', GString ''integer'')] ''format'' \<noteq> ''uuid''"
    by (simp_all add: field_defs)
  show ?thesis
    using getDummyValue_integer [OF t refl f, of True 5000 "''id''" Map.empty]
      getDummyValue_integer [OF t refl f, of True 5000 "''id''" "[''id'' \<mapsto> ''42'']"]
      getDummyValue_integer [OF t refl f, of False 1000 "''id''" Map.empty]
    by simp
qed

text \<open>
  C1 as stated fails on three inputs: an example is returned before the type is
  looked at, the uuid format wins over the type, and with fuzzing off an override
  replaces the integer 1000.
\<close>

theorem getDummyValue_integer_counterexample:
  "getDummyValue [(''type'', GString ''integer'')] (GString ''7'') True 5000 ''id'' Map.empty
     = Inr (GString ''7'') \<and>
   getDummyValue [(''type'', GString ''integer''), (''format'', GString ''uuid'')]
     GNil True 5000 ''id'' Map.empty = Inr (GString staticUUID) \<and>
   getDummyValue [(''type'', GString ''integer'')] GNil False 1000 ''id'' [''id'' \<mapsto> ''42'']
     = Inr (GString ''42'')"
  by (simp add: getDummyValue.simps field_defs Let_def)

section \<open>Evaluating the concrete documents\<close>

lemmas eval_defs =
  main_def count_requests_def count_path_def count_operation_def
  process_paths_def process_path_def process_operation_def send_request_def
  build_request_def param_step_def request_body_def hasIntegerParams_def schema_is_integer_def
  operations_def method_keys_def body_method_def normalizeHost_def
  getDummyValue.simps field_defs Let_def format_int_def decimal.simps
  values_Encode_def sort_by_key_def QueryEscape_def escape_byte_def unreserved_def upperhex_def
  example_lib_def cfg_get_def id_param_def tags_param_def name_param_def get_only_def
  item_op_def tags_op_def pets_op_def intFuzzValues_def
  cfg_post_def post_only_def upload_op_def
  auth_param_def secure_op_def pet_op_def notes_op_def create_op_def
  shared_params_def both_op_def shared_item_def
  query_values_def body_schema_def join.simps

lemma get_only_simps:
  "operations (get_only operation) ''GET'' = Some operation"
  "PathParameters (get_only operation) = []"
  by (simp_all add: operations_def get_only_def)

lemma cfg_get_simps:
  "methodsMap (cfg_get\<lparr>intFuzzing := fz\<rparr>) ''GET''"
  "methodsMap cfg_get ''GET''"
  "\<not> intFuzzing cfg_get"
  by (simp_all add: cfg_get_def)

lemma cfg_get_fuzz_off: "cfg_get\<lparr>intFuzzing := False\<rparr> = cfg_get"
  by (simp add: cfg_get_def)

lemma item_op_integer: "hasIntegerParams item_op [] = Inr True"
  by (simp add: hasIntegerParams_def schema_is_integer_def field_defs item_op_def id_param_def)

text \<open>
  The scenario of the path \<^verbatim>\<open>/items/{id}\<close> with an integer path parameter: the
  request for any fuzz value.
\<close>

lemma item_request:
  "build_request example_lib (cfg_get\<lparr>intFuzzing := fz\<rparr>) ''/items/{id}'' (get_only item_op)
     ''GET'' item_op fv =
     Inr \<lparr>req_method = ''GET'',
          req_url = ''https://api.example.com/items/'' @ format_int (if fz then fv else 1000),
          req_body = [], req_headerMap = []\<rparr>"
  by (simp add: build_request_def param_step_def request_body_def body_method_def
      normalizeHost_def getDummyValue.simps field_defs Let_def example_lib_def cfg_get_def
      id_param_def get_only_def item_op_def)

section \<open>The loops of main\<close>

lemma for_each_all_ok:
  "(\<And>x s. x \<in> set xs \<Longrightarrow> snd (body x s) = None) \<Longrightarrow> snd (for_each body xs s) = None"
proof (induction xs arbitrary: s)
  case Nil
  then show ?case by simp
next
  case (Cons x xs)
  have "snd (body x s) = None" using Cons.prems by simp
  then obtain s1 where "body x s = (s1, None)" by (cases "body x s") simp
  then show ?case using Cons.IH [of s1] Cons.prems by simp
qed

lemma length_intFuzzValues: "length intFuzzValues = 32"
  by (simp add: intFuzzValues_def)

lemma for_each_measure:
  fixes f :: "'s \<Rightarrow> nat"
  assumes step: "\<And>x s s'. x \<in> set xs \<Longrightarrow> body x s = (s', None) \<Longrightarrow> f s' = f s + w x"
    and run: "for_each body xs s = (s', None)"
  shows "f s' = f s + sum_list (map w xs)"
  using assms
proof (induction xs arbitrary: s)
  case Nil
  then show ?case by simp
next
  case (Cons x xs)
  obtain s1 st where b: "body x s = (s1, st)" by (cases "body x s")
  with Cons.prems(2) have st: "st = None" and rest: "for_each body xs s1 = (s', None)"
    by (auto split: option.splits)
  have "f s1 = f s + w x" using Cons.prems(1) [of x s s1] b st by simp
  moreover have "f s' = f s1 + sum_list (map w xs)"
    using Cons.IH [OF _ rest] Cons.prems(1) by simp
  ultimately show ?case by simp
qed

lemma send_request_sent:
  "send_request L cfg path pathItem method operation fv sent = (sent', None) \<Longrightarrow>
     \<exists>d. build_request L cfg path pathItem method operation fv = Inr d \<and> sent' = sent @ [d]"
  by (auto simp: send_request_def split: sum.splits)

lemma for_each_send:
  "for_each (send_request L cfg path pathItem method operation) fvs sent = (sent', None) \<Longrightarrow>
     \<exists>ds. sent' = sent @ ds \<and>
       list_all2 (\<lambda>fv d. build_request L cfg path pathItem method operation fv = Inr d) fvs ds"
proof (induction fvs arbitrary: sent)
  case Nil
  then show ?case by simp
next
  case (Cons fv fvs)
  obtain s1 st where b: "send_request L cfg path pathItem method operation fv sent = (s1, st)"
    by (cases "send_request L cfg path pathItem method operation fv sent")
  with Cons.prems have st: "st = None"
    and rest: "for_each (send_request L cfg path pathItem method operation) fvs s1 = (sent', None)"
    by (auto split: option.splits)
  from b st obtain d where d: "build_request L cfg path pathItem method operation fv = Inr d"
    and s1: "s1 = sent @ [d]"
    using send_request_sent by blast
  from Cons.IH [OF rest] obtain ds where "sent' = s1 @ ds"
    and "list_all2 (\<lambda>fv d. build_request L cfg path pathItem method operation fv = Inr d) fvs ds"
    by blast
  with d s1 show ?case by (intro exI [of _ "d # ds"]) simp
qed

lemma hasIntegerParams_eligible:
  "hasIntegerParams operation (PathParameters pathItem) = Inr hasIntegers \<Longrightarrow>
     hasIntegers = eligible pathItem operation"
  by (auto simp: hasIntegerParams_def eligible_def body_schema_def Let_def
      split: if_splits option.splits)

lemma process_operation_sends:
  assumes "operations pathItem method = Some operation"
    and "methodsMap cfg method"
    and "process_operation L cfg path pathItem method sent = (sent', None)"
  shows "\<exists>ds.
           hasIntegerParams operation (PathParameters pathItem)
             = Inr (eligible pathItem operation) \<and>
           sent' = sent @ ds \<and>
           length ds = (if intFuzzing cfg \<and> eligible pathItem operation then 32 else 1) \<and>
           list_all2 (\<lambda>fv d. build_request L cfg path pathItem method operation fv = Inr d)
             (if intFuzzing cfg \<and> eligible pathItem operation then intFuzzValues else [1000])
             ds"
proof -
  from assms obtain b where b: "hasIntegerParams operation (PathParameters pathItem) = Inr b"
    and run: "for_each (send_request L cfg path pathItem method operation)
                (if intFuzzing cfg \<and> b then intFuzzValues else [1000]) sent = (sent', None)"
    by (auto simp: process_operation_def split: sum.splits)
  from hasIntegerParams_eligible [OF b] have e: "b = eligible pathItem operation" .
  from for_each_send [OF run] obtain ds where ds: "sent' = sent @ ds"
    and all: "list_all2 (\<lambda>fv d. build_request L cfg path pathItem method operation fv = Inr d)
                (if intFuzzing cfg \<and> b then intFuzzValues else [1000]) ds"
    by blast
  from all have "length ds = length (if intFuzzing cfg \<and> b then intFuzzValues else [1000])"
    by (simp add: list_all2_lengthD)
  then have "length ds = (if intFuzzing cfg \<and> b then 32 else 1)"
    by (simp add: length_intFuzzValues)
  with b ds all e show ?thesis by blast
qed

text \<open>
  C2, as amended. For an operation that passes the method filter and whose pass of the
  building loop does not panic: \<^verbatim>\<open>hasIntegerParams\<close> returned whether the operation
  is eligible (a merged parameter or the declared body schema has type integer), and
  the pass sent exactly one descriptor when fuzzing is off or the operation is not
  eligible, and exactly 32 when fuzzing is on and the operation is eligible: the
  request built for each fuzz value, in order.
\<close>

theorem process_operation_count:
  assumes "operations pathItem method = Some operation"
    and "methodsMap cfg method"
    and "process_operation L cfg path pathItem method sent = (sent', None)"
  shows "\<exists>ds.
           hasIntegerParams operation (PathParameters pathItem)
             = Inr (eligible pathItem operation) \<and>
           sent' = sent @ ds \<and>
           length ds = (if intFuzzing cfg \<and> eligible pathItem operation then 32 else 1) \<and>
           list_all2 (\<lambda>fv d. build_request L cfg path pathItem method operation fv = Inr d)
             (if intFuzzing cfg \<and> eligible pathItem operation then intFuzzValues else [1000])
             ds"
  using assms by (rule process_operation_sends)

theorem process_operation_count_witness:
  "operations (get_only item_op) ''GET'' = Some item_op \<and>
   methodsMap cfg_get ''GET'' \<and>
   process_operation example_lib cfg_get ''/items/{id}'' (get_only item_op) ''GET'' []
     = ([\<lparr>req_method = ''GET'', req_url = ''https://api.example.com/items/1000'',
          req_body = [], req_headerMap = []\<rparr>], None) \<and>
   eligible (get_only item_op) item_op \<and>
   snd (process_operation example_lib (cfg_get\<lparr>intFuzzing := True\<rparr>) ''/items/{id}''
          (get_only item_op) ''GET'' []) = None \<and>
   length (fst (process_operation example_lib (cfg_get\<lparr>intFuzzing := True\<rparr>) ''/items/{id}''
          (get_only item_op) ''GET'' [])) = 32"
proof -
  let ?cfg = "cfg_get\<lparr>intFuzzing := True\<rparr>"
  let ?r = "process_operation example_lib ?cfg ''/items/{id}'' (get_only item_op) ''GET'' []"
  have one: "process_operation example_lib cfg_get ''/items/{id}'' (get_only item_op) ''GET'' []
     = ([\<lparr>req_method = ''GET'', req_url = ''https://api.example.com/items/1000'',
          req_body = [], req_headerMap = []\<rparr>], None)"
    using item_request [of False]
    by (simp add: process_operation_def get_only_simps cfg_get_simps item_op_integer
        send_request_def format_int_def decimal.simps cfg_get_fuzz_off)
  have ok: "snd ?r = None"
    by (simp add: process_operation_def get_only_simps cfg_get_simps item_op_integer)
       (rule for_each_all_ok, simp add: send_request_def item_request)
  then have r: "?r = ([] @ fst ?r, None)"
    by (simp add: prod_eq_iff)
  have el: "eligible (get_only item_op) item_op"
    by (simp add: eligible_def get_only_simps item_op_def id_param_def schema_is_integer_def
        field_defs)
  from process_operation_count [OF get_only_simps(1) cfg_get_simps(1) r] el
  have "length (fst ?r) = 32"
    by auto
  with one ok el show ?thesis
    by (simp add: get_only_simps cfg_get_simps)
qed

text \<open>
  C2 as stated fails: the GET operation below passes the filter and has no integer
  parameter, fuzzing is off, and no descriptor is sent, since synthesising the array
  parameter without \<^verbatim>\<open>items\<close> panics (line 99).
\<close>

theorem process_operation_count_counterexample:
  "operations (get_only tags_op) ''GET'' = Some tags_op \<and>
   methodsMap cfg_get ''GET'' \<and>
   \<not> eligible (get_only tags_op) tags_op \<and>
   process_operation example_lib cfg_get ''/pets'' (get_only tags_op) ''GET'' []
     = ([], Some RuntimePanic)"
  by (simp add: eval_defs eligible_def)

lemma count_operation_weight:
  "count_operation cfg pathItem method t = (t', None) \<Longrightarrow> t' = t + op_weight cfg pathItem method"
  by (auto simp: count_operation_def op_weight_def length_intFuzzValues
      split: option.splits sum.splits if_splits)

lemma process_operation_weight:
  assumes "process_operation L cfg path pathItem method sent = (sent', None)"
  shows "length sent' = length sent + op_weight cfg pathItem method"
proof (cases "operations pathItem method")
  case None
  with assms show ?thesis by (simp add: process_operation_def op_weight_def)
next
  case (Some operation)
  show ?thesis
  proof (cases "methodsMap cfg method")
    case False
    with Some assms show ?thesis by (simp add: process_operation_def op_weight_def)
  next
    case True
    from process_operation_sends [OF Some True assms] Some True
    show ?thesis by (auto simp: op_weight_def)
  qed
qed

lemma count_path_weight:
  "count_path cfg order entry t = (t', None) \<Longrightarrow> t' = t + path_weight cfg order entry"
  unfolding count_path_def path_weight_def
  by (rule for_each_measure [where f = "\<lambda>t. t"]) (auto dest: count_operation_weight)

lemma process_path_weight:
  "process_path L cfg order entry sent = (sent', None) \<Longrightarrow>
     length sent' = length sent + path_weight cfg order entry"
  unfolding process_path_def path_weight_def
  by (rule for_each_measure [where f = length]) (auto dest: process_operation_weight)

lemma count_requests_weight:
  "count_requests cfg ro = (t, None) \<Longrightarrow>
     t = sum_list (map (path_weight cfg (methods_order ro)) (paths_order ro))"
  unfolding count_requests_def
  using for_each_measure [where f = "\<lambda>t. t" and body = "count_path cfg (methods_order ro)"
      and w = "path_weight cfg (methods_order ro)" and xs = "paths_order ro" and s = 0 and s' = t]
  by (auto dest: count_path_weight)

lemma process_paths_weight:
  "process_paths L cfg ro = (sent, None) \<Longrightarrow>
     length sent = sum_list (map (path_weight cfg (methods_order ro)) (paths_order ro))"
  unfolding process_paths_def
  using for_each_measure [where f = length and body = "process_path L cfg (methods_order ro)"
      and w = "path_weight cfg (methods_order ro)" and xs = "paths_order ro" and s = "[]" and s' = sent]
  by (auto dest: process_path_weight)

lemma sum_list_map_mset:
  "mset xs = mset ys \<Longrightarrow> sum_list (map f xs) = sum_list (map (f::'a \<Rightarrow> nat) ys)"
proof -
  assume "mset xs = mset ys"
  then have "mset (map f xs) = mset (map f ys)" by simp
  then have "sum_mset (mset (map f xs)) = sum_mset (mset (map f ys))" by simp
  then show ?thesis by (simp only: sum_mset_sum_list)
qed

lemma path_weight_order:
  "\<forall>p. mset (o1 p) = mset (o2 p) \<Longrightarrow> path_weight cfg o1 = path_weight cfg o2"
  by (auto simp: path_weight_def fun_eq_iff intro: sum_list_map_mset)

text \<open>
  C3, as amended. For every document, method filter and fuzz flag, when the run ends
  without a panic, \<^verbatim>\<open>totalRequests\<close> equals the number of descriptors sent, in
  whatever orders the two nests of loops visit the same paths and the same
  methods.
\<close>

theorem main_total_equals_sent:
  assumes "main L cfg first second = ((totalRequests, sent), None)"
    and "mset (paths_order first) = mset (paths_order second)"
    and "\<forall>p. mset (methods_order first p) = mset (methods_order second p)"
  shows "totalRequests = length sent"
proof -
  from assms(1) have c: "count_requests cfg first = (totalRequests, None)"
    and p: "process_paths L cfg second = (sent, None)"
    by (auto simp: main_def split: if_splits prod.splits option.splits)
  have "totalRequests = sum_list (map (path_weight cfg (methods_order first)) (paths_order first))"
    using count_requests_weight [OF c] .
  also have "\<dots> = sum_list (map (path_weight cfg (methods_order second)) (paths_order first))"
    using path_weight_order [OF assms(3)] by simp
  also have "\<dots> = sum_list (map (path_weight cfg (methods_order second)) (paths_order second))"
    using assms(2) by (rule sum_list_map_mset)
  also have "\<dots> = length sent"
    using process_paths_weight [OF p] by simp
  finally show ?thesis .
qed

theorem main_total_equals_sent_witness:
  "mset [(''/items/{id}'', get_only item_op), (''/pets'', get_only pets_op)]
     = mset [(''/pets'', get_only pets_op), (''/items/{id}'', get_only item_op)] \<and>
   (\<forall>p::string. mset method_keys = mset (rev method_keys)) \<and>
   main example_lib cfg_get
     \<lparr>paths_order = [(''/items/{id}'', get_only item_op), (''/pets'', get_only pets_op)],
      methods_order = (\<lambda>p. method_keys)\<rparr>
     \<lparr>paths_order = [(''/pets'', get_only pets_op), (''/items/{id}'', get_only item_op)],
      methods_order = (\<lambda>p. rev method_keys)\<rparr>
   = ((2,
       [\<lparr>req_method = ''GET'', req_url = ''https://api.example.com/pets?name=test_string'',
          req_body = [], req_headerMap = []\<rparr>,
        \<lparr>req_method = ''GET'', req_url = ''https://api.example.com/items/1000'',
          req_body = [], req_headerMap = []\<rparr>]), None)"
proof -
  let ?first = "\<lparr>paths_order = [(''/items/{id}'', get_only item_op), (''/pets'', get_only pets_op)],
      methods_order = (\<lambda>p::string. method_keys)\<rparr>"
  let ?second = "\<lparr>paths_order = [(''/pets'', get_only pets_op), (''/items/{id}'', get_only item_op)],
      methods_order = (\<lambda>p::string. rev method_keys)\<rparr>"
  let ?sent = "[\<lparr>req_method = ''GET'', req_url = ''https://api.example.com/pets?name=test_string'',
          req_body = [], req_headerMap = []\<rparr>,
        \<lparr>req_method = ''GET'', req_url = ''https://api.example.com/items/1000'',
          req_body = [], req_headerMap = []\<rparr>]"
  have p: "mset (paths_order ?first) = mset (paths_order ?second)"
    by simp
  have m: "\<forall>p. mset (methods_order ?first p) = mset (methods_order ?second p)"
    by simp
  have "\<exists>n. main example_lib cfg_get ?first ?second = ((n, ?sent), None)"
    by (simp add: eval_defs)
  then obtain n where r: "main example_lib cfg_get ?first ?second = ((n, ?sent), None)" ..
  from main_total_equals_sent [OF r p m] have "n = 2" by simp
  with r p m show ?thesis by simp
qed

text \<open>
  C3 as stated fails: on the document below the counting loop ends with
  \<^verbatim>\<open>totalRequests\<close> equal to 1, and the building loop panics on the array parameter
  without \<^verbatim>\<open>items\<close> before any descriptor is sent.
\<close>

theorem main_total_equals_sent_counterexample:
  "main example_lib cfg_get
     \<lparr>paths_order = [(''/pets'', get_only tags_op)], methods_order = (\<lambda>p. method_keys)\<rparr>
     \<lparr>paths_order = [(''/pets'', get_only tags_op)], methods_order = (\<lambda>p. method_keys)\<rparr>
   = ((1, []), Some RuntimePanic)"
  by (simp add: eval_defs)

section \<open>Malformed nodes end the run with a panic\<close>


















section \<open>The loop over the parameters\<close>

lemma for_each_append:
  "for_each body (xs @ ys) s =
     (case for_each body xs s of (s', None) \<Rightarrow> for_each body ys s' | (s', Some e) \<Rightarrow> (s', Some e))"
  by (induction xs arbitrary: s) (auto split: prod.splits option.splits)

lemma for_each_ok_append:
  "for_each body (xs @ ys) s = (s'', None) \<longleftrightarrow>
     (\<exists>s'. for_each body xs s = (s', None) \<and> for_each body ys s' = (s'', None))"
  by (auto simp: for_each_append split: prod.splits option.splits)

lemma for_each_ok_Cons:
  "for_each body (x # xs) s = (s'', None) \<longleftrightarrow>
     (\<exists>s'. body x s = (s', None) \<and> for_each body xs s' = (s'', None))"
  by (auto split: prod.splits option.splits)

lemma param_step_dropped:
  assumes "In param = ''header'' \<or> In param = ''cookie''"
    and "param_step L cfg method fuzzValue param st = (st', None)"
  shows "st' = st"
  using assms by (auto simp: param_step_def split: sum.splits)

lemma build_request_cong:
  assumes "PathParameters pathItem' @ Parameters operation' = params"
    and "RequestBody operation' = RequestBody operation"
    and "for_each (param_step L cfg method fuzzValue) params
           \<lparr>requestURL = normalizeHost (host cfg) @ path, queryParams = [], bodyParams = []\<rparr>
         = for_each (param_step L cfg method fuzzValue)
             (PathParameters pathItem @ Parameters operation)
           \<lparr>requestURL = normalizeHost (host cfg) @ path, queryParams = [], bodyParams = []\<rparr>"
  shows "build_request L cfg path pathItem' method operation' fuzzValue
       = build_request L cfg path pathItem method operation fuzzValue"
  using assms by (simp add: build_request_def request_body_def)

lemma build_request_Inr:
  assumes "build_request L cfg path pathItem method operation fuzzValue = Inr d"
  shows "for_each (param_step L cfg method fuzzValue)
           (PathParameters pathItem @ Parameters operation)
           \<lparr>requestURL = normalizeHost (host cfg) @ path, queryParams = [], bodyParams = []\<rparr>
         = (params_state L cfg path pathItem method operation fuzzValue, None)"
    and "request_body L cfg method operation fuzzValue
           (bodyParams (params_state L cfg path pathItem method operation fuzzValue))
         = Inr (req_body d)"
    and "req_url d =
           (let st = params_state L cfg path pathItem method operation fuzzValue in
            if queryParams st \<noteq> []
            then requestURL st @ ''?'' @ values_Encode (queryParams st)
            else requestURL st)"
    and "req_method d = method"
    and "req_headerMap d = headerMap cfg"
  using assms
  by (auto simp: build_request_def params_state_def Let_def
      split: prod.splits option.splits sum.splits)

text \<open>
  C10. A parameter declared in the header or in a cookie leaves no trace in the
  descriptor: when a request is built from a parameter list that holds such a
  parameter, the request built from the list without it (same request body, method,
  fuzz value and configuration) is the same descriptor, in all four fields; and the
  header map of the descriptor is the configured one.
\<close>

theorem header_cookie_dropped:
  assumes "In param = ''header'' \<or> In param = ''cookie''"
    and "PathParameters pathItem @ Parameters operation = before @ param # after"
    and "PathParameters pathItem' @ Parameters operation' = before @ after"
    and "RequestBody operation' = RequestBody operation"
    and "build_request L cfg path pathItem method operation fuzzValue = Inr d"
  shows "build_request L cfg path pathItem' method operation' fuzzValue = Inr d \<and>
         req_headerMap d = headerMap cfg"
proof -
  let ?st0 = "\<lparr>requestURL = normalizeHost (host cfg) @ path, queryParams = [], bodyParams = []\<rparr>"
  let ?step = "param_step L cfg method fuzzValue"
  obtain st status where l: "for_each ?step (before @ param # after) ?st0 = (st, status)"
    by (cases "for_each ?step (before @ param # after) ?st0")
  with assms(2,5) have "status = None"
    by (cases status) (simp_all add: build_request_def)
  with l obtain s1 s2 where b: "for_each ?step before ?st0 = (s1, None)"
    and p: "?step param s1 = (s2, None)" and a: "for_each ?step after s2 = (st, None)"
    by (auto simp: for_each_ok_append for_each_ok_Cons simp del: for_each.simps)
  from param_step_dropped [OF assms(1) p] have "s2 = s1" .
  with b a have "for_each ?step (before @ after) ?st0 = (st, None)"
    by (auto simp: for_each_ok_append)
  with l \<open>status = None\<close> have "for_each ?step (before @ after) ?st0
      = for_each ?step (PathParameters pathItem @ Parameters operation) ?st0"
    using assms(2) by simp
  from build_request_cong [OF assms(3,4) this] assms(5)
  have "build_request L cfg path pathItem' method operation' fuzzValue = Inr d" by simp
  moreover from assms(5) have "req_headerMap d = headerMap cfg"
    by (auto simp: build_request_def Let_def split: prod.splits option.splits sum.splits)
  ultimately show ?thesis by simp
qed

theorem header_cookie_dropped_witness:
  "(In auth_param = ''header'' \<or> In auth_param = ''cookie'') \<and>
   PathParameters (get_only secure_op) @ Parameters secure_op = [] @ auth_param # [id_param] \<and>
   PathParameters (get_only item_op) @ Parameters item_op = [] @ [id_param] \<and>
   RequestBody item_op = RequestBody secure_op \<and>
   build_request example_lib cfg_get ''/items/{id}'' (get_only secure_op) ''GET'' secure_op 1000
     = Inr \<lparr>req_method = ''GET'', req_url = ''https://api.example.com/items/1000'',
            req_body = [], req_headerMap = []\<rparr> \<and>
   build_request example_lib cfg_get ''/items/{id}'' (get_only item_op) ''GET'' item_op 1000
     = Inr \<lparr>req_method = ''GET'', req_url = ''https://api.example.com/items/1000'',
            req_body = [], req_headerMap = []\<rparr>"
proof -
  have h: "In auth_param = ''header'' \<or> In auth_param = ''cookie''"
    by (simp add: auth_param_def)
  have a: "PathParameters (get_only secure_op) @ Parameters secure_op = [] @ auth_param # [id_param]"
    and b: "PathParameters (get_only item_op) @ Parameters item_op = [] @ [id_param]"
    and r: "RequestBody item_op = RequestBody secure_op"
    by (simp_all add: get_only_simps secure_op_def item_op_def)
  have e: "build_request example_lib cfg_get ''/items/{id}'' (get_only secure_op) ''GET''
             secure_op 1000
     = Inr \<lparr>req_method = ''GET'', req_url = ''https://api.example.com/items/1000'',
            req_body = [], req_headerMap = []\<rparr>"
    by (simp add: eval_defs)
  from header_cookie_dropped [OF h a b r e] h a b r e show ?thesis
    by simp
qed

section \<open>The request body\<close>

lemma map_of_map_assign: "map_of (map_assign m k v) = (map_of m)(k \<mapsto> v)"
  by (induction m k v rule: map_assign.induct) (auto simp: fun_eq_iff)

lemma map_assign_keys: "set (map fst (map_assign m k v)) = insert k (set (map fst m))"
  by (induction m k v rule: map_assign.induct) auto

lemma distinct_map_assign:
  "distinct (map fst m) \<Longrightarrow> distinct (map fst (map_assign m k v))"
proof (induction m k v rule: map_assign.induct)
  case (1 key v)
  then show ?case by simp
next
  case (2 k w rest key v)
  then show ?case
    using map_assign_keys [of rest key v] by auto
qed

lemma query_values_Cons:
  "query_values cfg fv (p # ps) =
     (if In p = ''query'' then
        (case getDummyValue (Schema p) (Example p) (intFuzzing cfg) fv (Name p)
                (paramOverrideMap cfg) of
           Inl e \<Rightarrow> []
         | Inr v \<Rightarrow> [(Name p, v)])
      else []) @ query_values cfg fv ps"
  by (simp add: query_values_def)

lemma param_loop_folded:
  assumes "body_method method"
    and "for_each (param_step L cfg method fv) ps st = (st', None)"
  shows "map_of (bodyParams st') = map_of (bodyParams st) ++ map_of (rev (query_values cfg fv ps)) \<and>
         (distinct (map fst (bodyParams st)) \<longrightarrow> distinct (map fst (bodyParams st'))) \<and>
         (bodyParams st' = [] \<longleftrightarrow> bodyParams st = [] \<and> query_values cfg fv ps = [])"
  using assms(2)
proof (induction ps arbitrary: st)
  case Nil
  then show ?case by (simp add: query_values_def)
next
  case (Cons p ps)
  from Cons.prems obtain s1 where p: "param_step L cfg method fv p st = (s1, None)"
    and r: "for_each (param_step L cfg method fv) ps s1 = (st', None)"
    by (auto simp: for_each_ok_Cons simp del: for_each.simps)
  from p obtain v where v: "getDummyValue (Schema p) (Example p) (intFuzzing cfg) fv (Name p)
                (paramOverrideMap cfg) = Inr v"
    by (auto simp: param_step_def split: sum.splits)
  note IH = Cons.IH [OF r]
  show ?case
  proof (cases "In p = ''query''")
    case True
    with p v assms(1) have s1: "bodyParams s1 = map_assign (bodyParams st) (Name p) v"
      by (auto simp: param_step_def)
    have q: "query_values cfg fv (p # ps) = (Name p, v) # query_values cfg fv ps"
      using True v by (simp add: query_values_Cons)
    have ne: "map_assign (bodyParams st) (Name p) v \<noteq> []"
      by (cases "bodyParams st") (auto split: if_splits)
    show ?thesis
      using IH s1 q ne
      by (auto simp: map_of_map_assign distinct_map_assign map_add_def fun_eq_iff
          split: option.splits)
  next
    case False
    with p v have s1: "bodyParams s1 = bodyParams st"
      by (auto simp: param_step_def)
    have q: "query_values cfg fv (p # ps) = query_values cfg fv ps"
      using False by (simp add: query_values_Cons)
    show ?thesis using IH s1 q by simp
  qed
qed

lemma folded_body:
  assumes "body_method method"
    and "build_request L cfg path pathItem method operation fuzzValue = Inr d"
    and "RequestBody operation = None"
  shows "\<exists>folded.
           map_of folded =
             map_of (rev (query_values cfg fuzzValue (PathParameters pathItem @ Parameters operation))) \<and>
           distinct (map fst folded) \<and>
           req_body d = (if folded = [] then ''{}'' else json_Marshal L (GMap folded))"
proof -
  let ?st = "params_state L cfg path pathItem method operation fuzzValue"
  note l = build_request_Inr(1) [OF assms(2)] and b = build_request_Inr(2) [OF assms(2)]
  from param_loop_folded [OF assms(1) l]
  have "map_of (bodyParams ?st) =
          map_of (rev (query_values cfg fuzzValue (PathParameters pathItem @ Parameters operation)))"
    and "distinct (map fst (bodyParams ?st))"
    by simp_all
  moreover from b assms(1,3)
  have "req_body d = (if bodyParams ?st = [] then ''{}'' else json_Marshal L (GMap (bodyParams ?st)))"
    by (auto simp: request_body_def)
  ultimately show ?thesis by blast
qed

text \<open>
  C6, as amended. For a POST, PUT or PATCH request that is built: if the operation
  declares a body schema under \<^verbatim>\<open>application/json\<close>, the body is the serialisation of
  the value synthesised from that schema (under the empty parameter name), whatever
  was folded; if the operation declares no request body at all, the body is the
  serialisation of the folded mapping (each query-declared parameter name with the
  value of its last declaration), or \<^verbatim>\<open>{}\<close> when nothing was folded; if it declares
  a request body without a schema under \<^verbatim>\<open>application/json\<close>, the body is empty.
\<close>

theorem request_body_rule:
  assumes "body_method method"
    and "build_request L cfg path pathItem method operation fuzzValue = Inr d"
  shows "(\<forall>schema. body_schema operation = Some schema \<longrightarrow>
            (\<exists>bodyData.
               getDummyValue schema GNil (intFuzzing cfg) fuzzValue [] (paramOverrideMap cfg)
                 = Inr bodyData \<and>
               req_body d = json_Marshal L bodyData)) \<and>
         (RequestBody operation = None \<longrightarrow>
            (\<exists>folded.
               map_of folded =
                 map_of (rev (query_values cfg fuzzValue
                                (PathParameters pathItem @ Parameters operation))) \<and>
               distinct (map fst folded) \<and>
               req_body d = (if folded = [] then ''{}'' else json_Marshal L (GMap folded)))) \<and>
         (RequestBody operation \<noteq> None \<and> body_schema operation = None \<longrightarrow> req_body d = [])"
proof -
  note b = build_request_Inr(2) [OF assms(2)]
  have a: "\<forall>schema. body_schema operation = Some schema \<longrightarrow>
            (\<exists>bodyData.
               getDummyValue schema GNil (intFuzzing cfg) fuzzValue [] (paramOverrideMap cfg)
                 = Inr bodyData \<and>
               req_body d = json_Marshal L bodyData)"
    using b by (auto simp: request_body_def body_schema_def split: option.splits sum.splits)
  have c: "RequestBody operation \<noteq> None \<and> body_schema operation = None \<longrightarrow> req_body d = []"
    using b by (auto simp: request_body_def body_schema_def split: option.splits sum.splits)
  from a c folded_body [OF assms] show ?thesis by blast
qed

theorem request_body_rule_witness:
  "body_method ''POST'' \<and>
   build_request example_lib cfg_post ''/pets'' (post_only pet_op) ''POST'' pet_op 1000
     = Inr \<lparr>req_method = ''POST'', req_url = ''https://api.example.com/pets'',
            req_body = plain_json (GMap [(''age'', GInt 1000)]), req_headerMap = []\<rparr> \<and>
   body_schema pet_op = Some [(''type'', GString ''object''),
         (''properties'', GMap [(''age'', GMap [(''type'', GString ''integer'')])])] \<and>
   getDummyValue [(''type'', GString ''object''),
         (''properties'', GMap [(''age'', GMap [(''type'', GString ''integer'')])])]
      GNil (intFuzzing cfg_post) 1000 [] (paramOverrideMap cfg_post)
     = Inr (GMap [(''age'', GInt 1000)]) \<and>
   RequestBody create_op = None \<and>
   build_request example_lib cfg_post ''/pets'' (post_only create_op) ''POST'' create_op 1000
     = Inr \<lparr>req_method = ''POST'', req_url = ''https://api.example.com/pets'',
            req_body = plain_json (GMap [(''name'', GString ''test_string'')]),
            req_headerMap = []\<rparr> \<and>
   query_values cfg_post 1000 (PathParameters (post_only create_op) @ Parameters create_op)
     = [(''name'', GString ''test_string'')]"
proof -
  have m: "body_method ''POST''" by (simp add: body_method_def)
  have e1: "build_request example_lib cfg_post ''/pets'' (post_only pet_op) ''POST'' pet_op 1000
     = Inr \<lparr>req_method = ''POST'', req_url = ''https://api.example.com/pets'',
            req_body = plain_json (GMap [(''age'', GInt 1000)]), req_headerMap = []\<rparr>"
    by (simp add: eval_defs)
  have e2: "build_request example_lib cfg_post ''/pets'' (post_only create_op) ''POST''
              create_op 1000
     = Inr \<lparr>req_method = ''POST'', req_url = ''https://api.example.com/pets'',
            req_body = plain_json (GMap [(''name'', GString ''test_string'')]),
            req_headerMap = []\<rparr>"
    by (simp add: eval_defs)
  have s: "body_schema pet_op = Some [(''type'', GString ''object''),
         (''properties'', GMap [(''age'', GMap [(''type'', GString ''integer'')])])]"
    by (simp add: body_schema_def pet_op_def field_defs)
  have n: "RequestBody create_op = None" by (simp add: create_op_def)
  have q: "query_values cfg_post 1000 (PathParameters (post_only create_op) @ Parameters create_op)
     = [(''name'', GString ''test_string'')]"
    by (simp add: eval_defs)
  from request_body_rule [OF m e1] s
  have "\<exists>bodyData. getDummyValue [(''type'', GString ''object''),
         (''properties'', GMap [(''age'', GMap [(''type'', GString ''integer'')])])]
      GNil (intFuzzing cfg_post) 1000 [] (paramOverrideMap cfg_post) = Inr bodyData \<and>
      plain_json (GMap [(''age'', GInt 1000)]) = json_Marshal example_lib bodyData"
    by simp
  then have g: "getDummyValue [(''type'', GString ''object''),
         (''properties'', GMap [(''age'', GMap [(''type'', GString ''integer'')])])]
      GNil (intFuzzing cfg_post) 1000 [] (paramOverrideMap cfg_post)
     = Inr (GMap [(''age'', GInt 1000)])"
    by (simp add: getDummyValue.simps field_defs Let_def cfg_post_def)
  from m e1 e2 s n q g show ?thesis by simp
qed

text \<open>
  C6 as stated fails: the POST operation below declares no body schema under
  \<^verbatim>\<open>application/json\<close> (its request body only has a \<^verbatim>\<open>text/plain\<close> entry) and has
  a query-declared parameter, yet the body is empty and not the serialisation of the
  folded mapping: the \<^verbatim>\<open>else\<close> of line 376 belongs to the test of line 369.
\<close>

theorem request_body_rule_counterexample:
  "body_method ''POST'' \<and>
   body_schema notes_op = None \<and>
   query_values cfg_post 1000 (PathParameters (post_only notes_op) @ Parameters notes_op)
     = [(''name'', GString ''test_string'')] \<and>
   build_request example_lib cfg_post ''/notes'' (post_only notes_op) ''POST'' notes_op 1000
     = Inr \<lparr>req_method = ''POST'', req_url = ''https://api.example.com/notes'',
            req_body = [], req_headerMap = []\<rparr> \<and>
   json_Marshal example_lib (GMap [(''name'', GString ''test_string'')]) \<noteq> []"
  by (simp add: eval_defs)

section \<open>Path-level and operation-level parameters with one name\<close>








section \<open>Placeholders in the resolved URL\<close>

lemma replace_skip:
  "CHR ''{'' \<notin> set s \<Longrightarrow>
     strings_Replace (s @ x) (CHR ''{'' # p) new = s @ strings_Replace x (CHR ''{'' # p) new"
  by (induction s) auto

lemma closing_brace_unique:
  "CHR ''}'' \<notin> set a \<Longrightarrow> CHR ''}'' \<notin> set b \<Longrightarrow>
     a @ CHR ''}'' # x = b @ CHR ''}'' # y \<Longrightarrow> a = b"
proof (induction a arbitrary: b)
  case Nil
  then show ?case by (cases b) auto
next
  case (Cons c a)
  then show ?case by (cases b) auto
qed

lemma hole_matches:
  assumes "brace_free n" and "brace_free m"
  shows "take (Suc (length n + 1)) (CHR ''{'' # m @ CHR ''}'' # R) = CHR ''{'' # n @ ''}'' \<longleftrightarrow> m = n"
proof
  assume "take (Suc (length n + 1)) (CHR ''{'' # m @ CHR ''}'' # R) = CHR ''{'' # n @ ''}''"
  then have t: "take (length n + 1) (m @ CHR ''}'' # R) = n @ ''}''" by simp
  have "m @ CHR ''}'' # R = take (length n + 1) (m @ CHR ''}'' # R) @ drop (length n + 1) (m @ CHR ''}'' # R)"
    by (simp only: append_take_drop_id)
  with t have "m @ CHR ''}'' # R = n @ CHR ''}'' # drop (length n + 1) (m @ CHR ''}'' # R)"
    by simp
  with assms show "m = n"
    by (auto simp: brace_free_def dest: closing_brace_unique [rotated 2])
next
  assume "m = n"
  then show "take (Suc (length n + 1)) (CHR ''{'' # m @ CHR ''}'' # R) = CHR ''{'' # n @ ''}''"
    by simp
qed

lemma replace_render:
  assumes "wf_template template" and "brace_free name"
  shows "strings_Replace (render template) (''{'' @ name @ ''}'') v = render (fill name v template)"
  using assms(1)
proof (induction template)
  case Nil
  then show ?case by simp
next
  case (Cons seg rest)
  then have IH: "strings_Replace (render rest) (''{'' @ name @ ''}'') v = render (fill name v rest)"
    by (simp add: wf_template_def)
  show ?case
  proof (cases seg)
    case (Text s)
    with Cons.prems have "CHR ''{'' \<notin> set s" by (simp add: wf_template_def brace_free_def)
    from replace_skip [OF this] IH Text show ?thesis by simp
  next
    case (Hole m)
    with Cons.prems have m: "brace_free m" by (simp add: wf_template_def)
    note hm = hole_matches [OF assms(2) m, of "render rest"]
    show ?thesis
    proof (cases "m = name")
      case True
      with hm IH Hole show ?thesis by simp
    next
      case False
      from m have "CHR ''{'' \<notin> set m" by (simp add: brace_free_def)
      from replace_skip [OF this, of "CHR ''}'' # render rest" "name @ ''}''" v]
      have "strings_Replace (m @ CHR ''}'' # render rest) (CHR ''{'' # name @ ''}'') v
              = m @ CHR ''}'' # strings_Replace (render rest) (CHR ''{'' # name @ ''}'') v"
        by simp
      with False hm IH Hole show ?thesis by simp
    qed
  qed
qed

lemma wf_fill:
  "wf_template template \<Longrightarrow> brace_free v \<Longrightarrow> wf_template (fill name v template)"
  by (induction name v template rule: fill.induct) (auto simp: wf_template_def)

lemma holes_fill: "set (holes (fill name v template)) = set (holes template) - {name}"
  by (induction name v template rule: fill.induct) auto

lemma render_no_holes:
  "wf_template template \<Longrightarrow> holes template = [] \<Longrightarrow> brace_free (render template)"
proof (induction template)
  case Nil
  then show ?case by (simp add: brace_free_def)
next
  case (Cons seg rest)
  then show ?case by (cases seg) (auto simp: wf_template_def brace_free_def)
qed

lemma param_step_url:
  assumes "param_step L cfg method fuzzValue param st = (st', None)"
  shows "\<exists>v. getDummyValue (Schema param) (Example param) (intFuzzing cfg) fuzzValue
               (Name param) (paramOverrideMap cfg) = Inr v \<and>
             requestURL st' =
               (if In param = ''path''
                then strings_Replace (requestURL st) (''{'' @ Name param @ ''}'') (fmt_Sprint L v)
                else requestURL st)"
  using assms by (auto simp: param_step_def split: sum.splits)

lemma param_loop_url:
  assumes "for_each (param_step L cfg method fuzzValue) params st = (st', None)"
    and "requestURL st = render template"
    and "wf_template template"
    and "\<forall>p \<in> set params. In p = ''path'' \<longrightarrow>
           brace_free (Name p) \<and>
           (\<forall>v. getDummyValue (Schema p) (Example p) (intFuzzing cfg) fuzzValue (Name p)
                  (paramOverrideMap cfg) = Inr v \<longrightarrow> brace_free (fmt_Sprint L v))"
  shows "\<exists>template'. requestURL st' = render template' \<and> wf_template template' \<and>
           set (holes template') =
             set (holes template) - {Name p | p. p \<in> set params \<and> In p = ''path''}"
  using assms
proof (induction params arbitrary: st template)
  case Nil
  then show ?case by auto
next
  case (Cons p ps)
  from Cons.prems(1) obtain s1 where p: "param_step L cfg method fuzzValue p st = (s1, None)"
    and r: "for_each (param_step L cfg method fuzzValue) ps s1 = (st', None)"
    by (auto simp: for_each_ok_Cons simp del: for_each.simps)
  from param_step_url [OF p] obtain v where
    v: "getDummyValue (Schema p) (Example p) (intFuzzing cfg) fuzzValue (Name p)
          (paramOverrideMap cfg) = Inr v"
    and u: "requestURL s1 =
              (if In p = ''path''
               then strings_Replace (requestURL st) (''{'' @ Name p @ ''}'') (fmt_Sprint L v)
               else requestURL st)"
    by blast
  have rest: "\<forall>q \<in> set ps. In q = ''path'' \<longrightarrow>
           brace_free (Name q) \<and>
           (\<forall>v. getDummyValue (Schema q) (Example q) (intFuzzing cfg) fuzzValue (Name q)
                  (paramOverrideMap cfg) = Inr v \<longrightarrow> brace_free (fmt_Sprint L v))"
    using Cons.prems(4) by simp
  show ?case
  proof (cases "In p = ''path''")
    case False
    with u Cons.prems(2) have "requestURL s1 = render template" by simp
    from Cons.IH [OF r this Cons.prems(3) rest] False show ?thesis by auto
  next
    case True
    with Cons.prems(4) v have n: "brace_free (Name p)" and bv: "brace_free (fmt_Sprint L v)"
      by auto
    let ?t1 = "fill (Name p) (fmt_Sprint L v) template"
    from True u Cons.prems(2) replace_render [OF Cons.prems(3) n]
    have u1: "requestURL s1 = render ?t1" by simp
    have w1: "wf_template ?t1" using Cons.prems(3) bv by (rule wf_fill)
    from Cons.IH [OF r u1 w1 rest] obtain t' where
      "requestURL st' = render t'" and "wf_template t'"
      and "set (holes t') = set (holes ?t1) - {Name q | q. q \<in> set ps \<and> In q = ''path''}"
      by blast
    with True show ?thesis
      by (intro exI [of _ t']) (auto simp: holes_fill)
  qed
qed

lemma brace_free_simps:
  "brace_free []"
  "brace_free (c # s) \<longleftrightarrow> c \<noteq> CHR ''{'' \<and> c \<noteq> CHR ''}'' \<and> brace_free s"
  "brace_free (a @ b) \<longleftrightarrow> brace_free a \<and> brace_free b"
  by (auto simp: brace_free_def)

lemma upperhex_brace_free:
  "k < 16 \<Longrightarrow> upperhex k \<noteq> CHR ''{'' \<and> upperhex k \<noteq> CHR ''}''"
proof -
  assume "k < 16"
  then have "upperhex k \<in> set ''0123456789ABCDEF''"
    unfolding upperhex_def by (intro nth_mem) simp
  then show ?thesis by auto
qed

lemma escape_byte_brace_free: "brace_free (escape_byte c)"
proof -
  have "(of_char c :: nat) < 256" by (rule nat_of_char_less_256)
  then have "(of_char c :: nat) div 16 < 16" and "(of_char c :: nat) mod 16 < 16"
    by arith+
  then show ?thesis
    using upperhex_brace_free [of "of_char c div 16"] upperhex_brace_free [of "of_char c mod 16"]
    by (auto simp: escape_byte_def brace_free_simps unreserved_def)
qed

lemma QueryEscape_brace_free: "brace_free (QueryEscape s)"
  by (induction s) (simp_all add: QueryEscape_def brace_free_simps escape_byte_brace_free)

lemma encode_values_brace_free:
  "brace_free buf \<Longrightarrow> brace_free k \<Longrightarrow> brace_free (encode_values k vs buf)"
  by (induction k vs buf rule: encode_values.induct)
     (simp_all add: brace_free_simps QueryEscape_brace_free)

lemma encode_keys_brace_free:
  "brace_free buf \<Longrightarrow> brace_free (encode_keys q buf)"
  by (induction q buf rule: encode_keys.induct)
     (simp_all add: encode_values_brace_free QueryEscape_brace_free)

lemma values_Encode_brace_free: "brace_free (values_Encode q)"
  by (simp add: values_Encode_def encode_keys_brace_free brace_free_simps)

lemma brace_free_no_placeholder: "brace_free s \<Longrightarrow> \<not> has_placeholder s"
  by (induction s) (auto simp: brace_free_def)

lemma has_placeholder_iff:
  "has_placeholder s \<longleftrightarrow> (\<exists>a name b. s = a @ ''{'' @ name @ ''}'' @ b)"
proof (induction s)
  case Nil
  then show ?case by simp
next
  case (Cons c cs)
  show ?case
  proof
    assume "has_placeholder (c # cs)"
    then consider "c = CHR ''{''" "CHR ''}'' \<in> set cs" | "has_placeholder cs" by auto
    then show "\<exists>a name b. c # cs = a @ ''{'' @ name @ ''}'' @ b"
    proof cases
      case 1
      from 1(2) obtain n b where "cs = n @ CHR ''}'' # b" by (auto simp: in_set_conv_decomp)
      with 1(1) have "c # cs = [] @ ''{'' @ n @ ''}'' @ b" by simp
      then show ?thesis by blast
    next
      case 2
      with Cons.IH obtain a n b where "cs = a @ ''{'' @ n @ ''}'' @ b" by blast
      then have "c # cs = (c # a) @ ''{'' @ n @ ''}'' @ b" by simp
      then show ?thesis by blast
    qed
  next
    assume "\<exists>a name b. c # cs = a @ ''{'' @ name @ ''}'' @ b"
    then obtain a n b where e: "c # cs = a @ ''{'' @ n @ ''}'' @ b" by blast
    show "has_placeholder (c # cs)"
    proof (cases a)
      case Nil
      with e show ?thesis by auto
    next
      case (Cons x a')
      with e have "cs = a' @ ''{'' @ n @ ''}'' @ b" by simp
      then have "has_placeholder cs" using Cons.IH by blast
      then show ?thesis by simp
    qed
  qed
qed

text \<open>
  C4, as amended. When the host followed by the path is a template (text without
  braces and placeholders with brace-free names), every placeholder of it is the name
  of a path-located parameter of the merged list, the names of the path-located
  parameters have no braces, and the values synthesised for them print without
  braces, the URL of the descriptor that is built has no brace at all, so no
  placeholder is left: the query string that may follow is percent-encoded.
\<close>

theorem resolved_url_brace_free:
  assumes "normalizeHost (host cfg) @ path = render template"
    and "wf_template template"
    and "\<forall>name \<in> set (holes template).
           \<exists>p \<in> set (PathParameters pathItem @ Parameters operation).
             In p = ''path'' \<and> Name p = name"
    and "\<forall>p \<in> set (PathParameters pathItem @ Parameters operation). In p = ''path'' \<longrightarrow>
           brace_free (Name p) \<and>
           (\<forall>v. getDummyValue (Schema p) (Example p) (intFuzzing cfg) fuzzValue (Name p)
                  (paramOverrideMap cfg) = Inr v \<longrightarrow> brace_free (fmt_Sprint L v))"
    and "build_request L cfg path pathItem method operation fuzzValue = Inr d"
  shows "brace_free (req_url d) \<and> \<not> has_placeholder (req_url d)"
proof -
  let ?st = "params_state L cfg path pathItem method operation fuzzValue"
  note l = build_request_Inr(1) [OF assms(5)] and u = build_request_Inr(3) [OF assms(5)]
  from param_loop_url [OF l _ assms(2,4)] assms(1)
  obtain t' where r: "requestURL ?st = render t'" and w: "wf_template t'"
    and h: "set (holes t') = set (holes template) -
              {Name p | p. p \<in> set (PathParameters pathItem @ Parameters operation) \<and> In p = ''path''}"
    by auto
  from h assms(3) have "set (holes t') = {}" by auto
  then have "holes t' = []" by simp
  with w have "brace_free (render t')" by (rule render_no_holes)
  with r u have "brace_free (req_url d)"
    by (simp add: Let_def values_Encode_brace_free brace_free_simps)
  then show ?thesis by (simp add: brace_free_no_placeholder)
qed

theorem resolved_url_brace_free_witness:
  "normalizeHost (host cfg_get) @ ''/items/{id}''
     = render [Text ''https://api.example.com/items/'', Hole ''id''] \<and>
   wf_template [Text ''https://api.example.com/items/'', Hole ''id''] \<and>
   holes [Text ''https://api.example.com/items/'', Hole ''id''] = [Name id_param] \<and>
   In id_param = ''path'' \<and> brace_free (Name id_param) \<and>
   getDummyValue (Schema id_param) (Example id_param) (intFuzzing cfg_get) 1000 (Name id_param)
     (paramOverrideMap cfg_get) = Inr (GInt 1000) \<and>
   brace_free (fmt_Sprint example_lib (GInt 1000)) \<and>
   build_request example_lib cfg_get ''/items/{id}'' (get_only item_op) ''GET'' item_op 1000
     = Inr \<lparr>req_method = ''GET'', req_url = ''https://api.example.com/items/1000'',
            req_body = [], req_headerMap = []\<rparr> \<and>
   brace_free ''https://api.example.com/items/1000'' \<and>
   \<not> has_placeholder ''https://api.example.com/items/1000''"
proof -
  let ?t = "[Text ''https://api.example.com/items/'', Hole ''id'']"
  have r: "normalizeHost (host cfg_get) @ ''/items/{id}'' = render ?t"
    by (simp add: normalizeHost_def cfg_get_def)
  have w: "wf_template ?t"
    by (simp add: wf_template_def brace_free_def)
  have h: "holes ?t = [Name id_param]" and i: "In id_param = ''path''"
    and n: "brace_free (Name id_param)"
    by (simp_all add: id_param_def brace_free_def)
  have g: "getDummyValue (Schema id_param) (Example id_param) (intFuzzing cfg_get) 1000
             (Name id_param) (paramOverrideMap cfg_get) = Inr (GInt 1000)"
    by (simp add: getDummyValue.simps field_defs Let_def id_param_def cfg_get_def)
  have f: "brace_free (fmt_Sprint example_lib (GInt 1000))"
    by (simp add: format_int_def decimal.simps brace_free_def)
  have e: "build_request example_lib cfg_get ''/items/{id}'' (get_only item_op) ''GET'' item_op 1000
     = Inr \<lparr>req_method = ''GET'', req_url = ''https://api.example.com/items/1000'',
            req_body = [], req_headerMap = []\<rparr>"
    using item_request [of False 1000]
    by (simp add: cfg_get_fuzz_off format_int_def decimal.simps)
  have a3: "\<forall>name \<in> set (holes ?t).
           \<exists>p \<in> set (PathParameters (get_only item_op) @ Parameters item_op).
             In p = ''path'' \<and> Name p = name"
    using h i by (simp add: get_only_simps item_op_def)
  have a4: "\<forall>p \<in> set (PathParameters (get_only item_op) @ Parameters item_op).
      In p = ''path'' \<longrightarrow>
        brace_free (Name p) \<and>
        (\<forall>v. getDummyValue (Schema p) (Example p) (intFuzzing cfg_get) 1000 (Name p)
               (paramOverrideMap cfg_get) = Inr v \<longrightarrow> brace_free (fmt_Sprint example_lib v))"
    using n g f by (simp add: get_only_simps item_op_def)
  from resolved_url_brace_free [OF r w a3 a4 e] r w h i n g f e show ?thesis
    by simp
qed

text \<open>
  C4 as stated fails: a placeholder that no path-located parameter declares stays in
  the URL; so does the placeholder of a declared parameter whose value is the
  placeholder itself; and in a path with doubled braces a value without braces leaves
  a new placeholder.
\<close>

theorem resolved_url_brace_free_counterexample:
  "build_request example_lib cfg_get ''/items/{id}'' (get_only pets_op) ''GET'' pets_op 1000
     = Inr \<lparr>req_method = ''GET'',
            req_url = ''https://api.example.com/items/{id}?name=test_string'',
            req_body = [], req_headerMap = []\<rparr> \<and>
   has_placeholder ''https://api.example.com/items/{id}?name=test_string'' \<and>
   build_request example_lib (cfg_get\<lparr>paramOverrideMap := [''id'' \<mapsto> ''{id}'']\<rparr>)
     ''/items/{id}'' (get_only item_op) ''GET'' item_op 1000
     = Inr \<lparr>req_method = ''GET'', req_url = ''https://api.example.com/items/{id}'',
            req_body = [], req_headerMap = []\<rparr> \<and>
   build_request example_lib (cfg_get\<lparr>paramOverrideMap := [''id'' \<mapsto> ''id'']\<rparr>)
     ''/items/{{id}}'' (get_only item_op) ''GET'' item_op 1000
     = Inr \<lparr>req_method = ''GET'', req_url = ''https://api.example.com/items/{id}'',
            req_body = [], req_headerMap = []\<rparr> \<and>
   has_placeholder ''https://api.example.com/items/{id}''"
  by (simp add: eval_defs)


end
